theory Spec2Isabelle
  imports Complex_Main "HOL-Library.AList" "HOL-Library.Multiset"
begin

section \<open>Weather observations and the suitability scorer\<close>

text \<open>
  The normalised observation built by \<open>simplifyWeather\<close>. JavaScript numbers that come out
  of a JSON document are finite doubles; the scorer only compares them with the integer
  constants 10, 283 and 303, so they are modelled as reals. \<open>clouds\<close> is \<open>null\<close> when the
  provider sent none.
\<close>

record observation =
  temp :: real
  description :: string
  wind :: real
  clouds :: "real option"
  icon :: string

text \<open>
  JSON values, as held in the request bodies and in the persisted event records. An object
  is a list of key/value pairs in insertion order; an absent property reads as
  \<open>undefined\<close>, which is \<open>None\<close> at type \<open>json option\<close>.
\<close>

datatype json =
    JNull
  | JBool bool
  | JNum real
  | JStr string
  | JArr "json list"
  | JObj "(string \<times> json) list"

type_synonym obj = "(string \<times> json) list"

text \<open>The result object \<open>{ score, suitability }\<close> of the scorer.\<close>

record suitability_result =
  score :: int
  suitability :: string

text \<open>
  \<open>String.prototype.toLowerCase\<close> on the ASCII letters (strings are byte lists here, and
  the three words searched for are ASCII), and \<open>String.prototype.includes\<close>.
\<close>

definition lower_char :: "char \<Rightarrow> char" where
  "lower_char c =
     (case map_of (zip ''ABCDEFGHIJKLMNOPQRSTUVWXYZ'' ''abcdefghijklmnopqrstuvwxyz'') c of
        None \<Rightarrow> c
      | Some l \<Rightarrow> l)"

definition toLowerCase :: "string \<Rightarrow> string" where
  "toLowerCase s = map lower_char s"

fun startsWith :: "string \<Rightarrow> string \<Rightarrow> bool" where
  "startsWith s [] = True"
| "startsWith [] (p # ps) = False"
| "startsWith (c # cs) (p # ps) = (c = p \<and> startsWith cs ps)"

fun str_includes :: "string \<Rightarrow> string \<Rightarrow> bool" where
  "str_includes [] p = (p = [])"
| "str_includes (c # cs) p = (startsWith (c # cs) p \<or> str_includes cs p)"

text \<open>
  \<open>getSuitability(weather, type)\<close>, statement by statement: the running \<open>score\<close> variable
  is threaded through the successive \<open>if\<close>s. \<open>add_if c k\<close> is the statement
  \<open>if (c) score += k;\<close> and \<open>type_adjust\<close> the \<open>if\<close>/\<open>else if\<close> on the event type, which
  is whatever JSON value the event record holds (\<open>===\<close> compares it with a string).
\<close>

definition add_if :: "bool \<Rightarrow> int \<Rightarrow> int \<Rightarrow> int" where
  "add_if c k s = (if c then s + k else s)"

definition type_adjust :: "json option \<Rightarrow> int \<Rightarrow> int" where
  "type_adjust type s =
     (if type = Some (JStr ''wedding'') then s + 10
      else if type = Some (JStr ''sports'') then s - 5
      else s)"

definition getSuitability :: "observation option \<Rightarrow> json option \<Rightarrow> suitability_result" where
  "getSuitability weather type =
     (case weather of
        None \<Rightarrow> \<lparr>score = 0, suitability = ''Unknown''\<rparr>
      | Some w \<Rightarrow>
          (let score0 = (50 :: int);
               desc = toLowerCase (description w);
               score1 = add_if (str_includes desc ''clear'') 30 score0;
               score2 = add_if (str_includes desc ''cloud'') 10 score1;
               score3 = add_if (str_includes desc ''rain'') (- 30) score2;
               score4 = add_if (wind w > 10) (- 10) score3;
               score5 = add_if (temp w < 283 \<or> temp w > 303) (- 10) score4;
               score6 = type_adjust type score5;
               score7 = max 0 (min 100 score6);
               label = (if score7 > 80 then ''Great''
                        else if score7 > 60 then ''Good''
                        else if score7 > 40 then ''Okay''
                        else ''Poor'')
           in \<lparr>score = score7, suitability = label\<rparr>))"

section \<open>The weather client\<close>

text \<open>
  The provider's JSON document, with the nesting \<open>simplifyWeather\<close> reads through optional
  chaining: every object and every leaf may be missing. The leaves carry the types the
  provider documents (numbers and strings). A document that is falsy in JavaScript
  (\<open>null\<close>, \<open>false\<close>, \<open>0\<close>, \<open>""\<close>) is \<open>FalsyDoc\<close>: the handlers test the payload with
  \<open>!rawWeather\<close>.
\<close>

record main_part =
  main_temp :: "real option"

record weather_item =
  item_description :: "string option"
  item_icon :: "string option"

record wind_part =
  wind_speed :: "real option"

record clouds_part =
  clouds_all :: "real option"

record raw =
  r_main :: "main_part option"
  r_weather :: "weather_item list option"
  r_wind :: "wind_part option"
  r_clouds :: "clouds_part option"

datatype payload = FalsyDoc | Doc raw

text \<open>\<open>v || d\<close>: \<open>undefined\<close>, \<open>0\<close> and the empty string are falsy.\<close>

definition or_num :: "real option \<Rightarrow> real \<Rightarrow> real" where
  "or_num v d = (case v of None \<Rightarrow> d | Some x \<Rightarrow> if x = 0 then d else x)"

definition or_str :: "string option \<Rightarrow> string \<Rightarrow> string" where
  "or_str v d = (case v of None \<Rightarrow> d | Some x \<Rightarrow> if x = [] then d else x)"

text \<open>\<open>raw.weather?.[0]\<close>\<close>

definition first_item :: "raw \<Rightarrow> weather_item option" where
  "first_item r =
     (case r_weather r of None \<Rightarrow> None | Some [] \<Rightarrow> None | Some (x # rest) \<Rightarrow> Some x)"

definition simplifyWeather :: "raw \<Rightarrow> observation" where
  "simplifyWeather r =
     \<lparr>temp = or_num (Option.bind (r_main r) main_temp) 0,
      description = or_str (Option.bind (first_item r) item_description) ''unknown'',
      wind = or_num (Option.bind (r_wind r) wind_speed) 0,
      clouds = Option.bind (r_clouds r) clouds_all,
      icon = or_str (Option.bind (first_item r) item_icon) ''''\<rparr>"

text \<open>
  What lies outside the repository is a parameter: the provider's answer to the \<open>n\<close>-th
  upstream request for a URL (it may change from one request to the next), JavaScript's
  string conversion of a value that is not a string, and the \<open>Date\<close> arithmetic of the
  alternatives endpoint (\<open>new Date(d)\<close>, \<open>setDate(getDate() + offset)\<close>,
  \<open>toISOString().split("T")[0]\<close>), which depends on the server's time zone and throws a
  \<open>RangeError\<close> on an invalid date (\<open>None\<close>).
\<close>

datatype fetch_outcome =
    Rejected string
  | Response nat "payload option"

record env =
  env_fetch :: "nat \<Rightarrow> string \<Rightarrow> fetch_outcome"
  env_toString :: "json option \<Rightarrow> string"
  env_shiftDate :: "json option \<Rightarrow> int \<Rightarrow> string option"

datatype error = FetchRejected string | HttpError nat | BodyUnparsable

text \<open>
  The state the handlers share: the content of \<open>db.json\<close> (\<open>None\<close> when the file is missing
  or unparsable), the process-wide \<open>weatherCache\<close>, and the URLs requested from the
  provider so far, oldest first.
\<close>

record world =
  db_file :: "obj list option"
  weatherCache :: "string \<rightharpoonup> payload"
  upstream :: "string list"

definition API_KEY :: string where
  "API_KEY = ''09f443ae647258a69c856b58371234e2''"

text \<open>Interpolation \<open>${v}\<close> in a template literal.\<close>

definition interp :: "env \<Rightarrow> json option \<Rightarrow> string" where
  "interp E v = (case v of Some (JStr s) \<Rightarrow> s | _ \<Rightarrow> env_toString E v)"

definition cache_key :: "env \<Rightarrow> json option \<Rightarrow> json option \<Rightarrow> string" where
  "cache_key E city date = interp E city @ ''-'' @ interp E date"

definition weather_url :: "env \<Rightarrow> json option \<Rightarrow> string" where
  "weather_url E city =
     ''https://api.openweathermap.org/data/2.5/weather?q='' @ interp E city
       @ ''&appid='' @ API_KEY"

definition res_ok :: "nat \<Rightarrow> bool" where
  "res_ok status = (200 \<le> status \<and> status \<le> 299)"

text \<open>
  \<open>getWeather(city, date)\<close>: \<open>Inl\<close> is the exception it rethrows. The request is logged in
  \<open>upstream\<close> whatever its outcome; the cache is written on the success path only. The
  line the \<open>catch\<close> block prints to the console is left out.
\<close>

definition getWeather ::
  "env \<Rightarrow> json option \<Rightarrow> json option \<Rightarrow> world \<Rightarrow> (error + payload) \<times> world" where
  "getWeather E city date w =
     (let key = cache_key E city date in
      case weatherCache w key of
        Some cached \<Rightarrow> (Inr cached, w)
      | None \<Rightarrow>
          (let url = weather_url E city;
               w1 = w\<lparr>upstream := upstream w @ [url]\<rparr>
           in case env_fetch E (length (upstream w)) url of
                Rejected msg \<Rightarrow> (Inl (FetchRejected msg), w1)
              | Response status body \<Rightarrow>
                  if \<not> res_ok status then (Inl (HttpError status), w1)
                  else (case body of
                          None \<Rightarrow> (Inl BodyUnparsable, w1)
                        | Some data \<Rightarrow>
                            (Inr data, w1\<lparr>weatherCache := (weatherCache w1)(key \<mapsto> data)\<rparr>))))"

definition safeGetWeather ::
  "env \<Rightarrow> json option \<Rightarrow> json option \<Rightarrow> world \<Rightarrow> payload option \<times> world" where
  "safeGetWeather E city date w =
     (case getWeather E city date w of
        (Inl err, w') \<Rightarrow> (None, w')
      | (Inr data, w') \<Rightarrow> (Some data, w'))"

text \<open>
  \<open>rawWeather ? simplifyWeather(rawWeather) : null\<close>: both the \<open>null\<close> of
  \<open>safeGetWeather\<close> and a falsy document take the \<open>null\<close> branch.
\<close>

definition simplified_of :: "payload option \<Rightarrow> observation option" where
  "simplified_of rawWeather =
     (case rawWeather of Some (Doc r) \<Rightarrow> Some (simplifyWeather r) | _ \<Rightarrow> None)"

section \<open>Event records and the store\<close>

definition field :: "obj \<Rightarrow> string \<Rightarrow> json option" where
  "field e k = map_of e k"

text \<open>
  An object literal whose property values may be \<open>undefined\<close>: \<open>JSON.stringify\<close> drops such
  properties, and reading a dropped property yields \<open>undefined\<close> again.
\<close>

fun mk_obj :: "(string \<times> json option) list \<Rightarrow> obj" where
  "mk_obj [] = []"
| "mk_obj ((k, None) # kvs) = mk_obj kvs"
| "mk_obj ((k, Some v) # kvs) = (k, v) # mk_obj kvs"

definition weather_json :: "observation option \<Rightarrow> json" where
  "weather_json weather =
     (case weather of
        None \<Rightarrow> JNull
      | Some s \<Rightarrow>
          JObj [(''temp'', JNum (temp s)),
                (''description'', JStr (description s)),
                (''wind'', JNum (wind s)),
                (''clouds'', case clouds s of None \<Rightarrow> JNull | Some c \<Rightarrow> JNum c),
                (''icon'', JStr (icon s))])"

text \<open>
  \<open>readDB\<close> and \<open>writeDB\<close>, reduced to the \<open>events\<close> array of the document: a missing or
  unparsable file reads as the empty store, and every handler rereads the file.
\<close>

definition readDB :: "world \<Rightarrow> obj list" where
  "readDB w = (case db_file w of None \<Rightarrow> [] | Some events \<Rightarrow> events)"

definition writeDB :: "obj list \<Rightarrow> world \<Rightarrow> world" where
  "writeDB events w = w\<lparr>db_file := Some events\<rparr>"

text \<open>
  \<open>formatEvent\<close>: the object literal with the eight destructured properties, each of which
  may be \<open>undefined\<close>.
\<close>

definition event_keys :: "string list" where
  "event_keys =
     [''id'', ''name'', ''city'', ''date'', ''type'', ''score'', ''suitability'', ''weather'']"

definition formatEvent :: "obj \<Rightarrow> (string \<times> json option) list" where
  "formatEvent event = map (\<lambda>k. (k, field event k)) event_keys"

text \<open>
  \<open>db.events.find(e => e.id === id)\<close>, by position, since the handlers mutate the record
  they found inside \<open>db.events\<close>. The \<open>id\<close> is the result of \<open>parseInt\<close>: \<open>None\<close> is \<open>NaN\<close>,
  which is \<open>===\<close> to nothing.
\<close>

definition id_is :: "int option \<Rightarrow> obj \<Rightarrow> bool" where
  "id_is eid e = (case eid of None \<Rightarrow> False | Some i \<Rightarrow> field e ''id'' = Some (JNum (of_int i)))"

fun find_index :: "('a \<Rightarrow> bool) \<Rightarrow> 'a list \<Rightarrow> nat option" where
  "find_index P [] = None"
| "find_index P (x # xs) = (if P x then Some 0 else map_option Suc (find_index P xs))"

text \<open>
  The object a handler holds while it works on a record: its own properties and its
  prototype. A record parsed from \<open>db.json\<close> has \<open>Object.prototype\<close> as its prototype;
  \<open>JsonProto v\<close> is a parsed JSON object or array \<open>v\<close> installed as prototype.
\<close>

datatype prototype = ObjectProto | NullProto | JsonProto json

record live =
  own :: obj
  proto :: prototype

text \<open>
  Whether a lookup of \<open>__proto__\<close> along the prototype chain ends at the accessor of
  \<open>Object.prototype\<close>: not below a null prototype, and not when the installed JSON object
  has a property of that name itself.
\<close>

definition setter_reachable :: "prototype \<Rightarrow> bool" where
  "setter_reachable p =
     (case p of
        ObjectProto \<Rightarrow> True
      | NullProto \<Rightarrow> False
      | JsonProto v \<Rightarrow>
          (case v of JObj kvs \<Rightarrow> map_of kvs ''__proto__'' = None | _ \<Rightarrow> True))"

text \<open>
  The assignment \<open>target[k] = v\<close>. For the key \<open>__proto__\<close>, unless the target has a
  property of that name itself, it runs the accessor: an object, an array or \<open>null\<close>
  becomes the prototype, any other value is ignored, and no property is stored. Every
  other assignment writes the target's own property.
\<close>

definition set_prop :: "string \<Rightarrow> json \<Rightarrow> live \<Rightarrow> live" where
  "set_prop k v l =
     (if k = ''__proto__'' \<and> field (own l) ''__proto__'' = None \<and> setter_reachable (proto l)
      then (case v of
              JObj kvs \<Rightarrow> l\<lparr>proto := JsonProto v\<rparr>
            | JArr xs \<Rightarrow> l\<lparr>proto := JsonProto v\<rparr>
            | JNull \<Rightarrow> l\<lparr>proto := NullProto\<rparr>
            | _ \<Rightarrow> l)
      else l\<lparr>own := AList.update k v (own l)\<rparr>)"

text \<open>\<open>Object.assign(target, source)\<close>: the source's properties are assigned one by one.\<close>

definition assign :: "obj \<Rightarrow> obj \<Rightarrow> live" where
  "assign target source =
     fold (\<lambda>(k, v) l. set_prop k v l) source \<lparr>own = target, proto = ObjectProto\<rparr>"

text \<open>
  What reading a property of a live object finds, for the eight names \<open>formatEvent\<close> reads
  (neither \<open>Object.prototype\<close> nor \<open>Array.prototype\<close> defines one of them): its own
  properties first, then those of an installed JSON object. \<open>JSON.stringify\<close>, on the
  other hand, writes the own properties only.
\<close>

definition inherited :: "prototype \<Rightarrow> obj" where
  "inherited p =
     (case p of JsonProto v \<Rightarrow> (case v of JObj kvs \<Rightarrow> kvs | _ \<Rightarrow> []) | _ \<Rightarrow> [])"

definition visible :: "live \<Rightarrow> obj" where
  "visible l = own l @ inherited (proto l)"

text \<open>
  \<open>res.json(body)\<close> sends \<open>JSON.stringify(body)\<close>, which leaves out every property whose
  value is \<open>undefined\<close>.
\<close>

definition res_json :: "(string \<times> json option) list \<Rightarrow> obj" where
  "res_json body = mk_obj body"

section \<open>The request handlers\<close>

datatype 'a reply =
    Sent 'a
  | Fail nat string string
  | Threw string

type_synonym event_view = "(string \<times> json option) list"

text \<open>\<open>POST /events\<close>\<close>

definition postEvent :: "env \<Rightarrow> obj \<Rightarrow> world \<Rightarrow> event_view reply \<times> world" where
  "postEvent E body w =
     (let name = field body ''name'';
          city = field body ''city'';
          date = field body ''date'';
          type = field body ''type'';
          events = readDB w;
          (rawWeather, w1) = safeGetWeather E city date w;
          simplifiedWeather = simplified_of rawWeather;
          r = getSuitability simplifiedWeather type;
          newEvent = mk_obj
            [(''id'', Some (JNum (of_nat (length events + 1)))),
             (''name'', name),
             (''city'', city),
             (''date'', date),
             (''type'', type),
             (''score'', Some (JNum (of_int (score r)))),
             (''suitability'', Some (JStr (suitability r))),
             (''weather'', Some (weather_json simplifiedWeather))]
      in (Sent (formatEvent newEvent), writeDB (events @ [newEvent]) w1))"

text \<open>\<open>GET /events\<close>\<close>

definition getEvents :: "world \<Rightarrow> event_view list reply \<times> world" where
  "getEvents w = (Sent (map formatEvent (readDB w)), w)"

text \<open>
  \<open>PUT /events/:id\<close>. \<open>formatEvent\<close> reads the merged object, prototype included;
  \<open>writeDB\<close> stores its own properties.
\<close>

definition putEvent :: "int option \<Rightarrow> obj \<Rightarrow> world \<Rightarrow> event_view reply \<times> world" where
  "putEvent eid body w =
     (let events = readDB w in
      case find_index (id_is eid) events of
        None \<Rightarrow> (Fail 404 ''error'' ''Event not found'', w)
      | Some i \<Rightarrow>
          (let event = assign (events ! i) body
           in (Sent (formatEvent (visible event)), writeDB (events[i := own event]) w)))"

text \<open>\<open>GET /weather/:city/:date\<close>\<close>

definition getRawWeather :: "env \<Rightarrow> string \<Rightarrow> string \<Rightarrow> world \<Rightarrow> raw reply \<times> world" where
  "getRawWeather E city date w =
     (let (weather, w1) = safeGetWeather E (Some (JStr city)) (Some (JStr date)) w in
      case weather of
        Some (Doc r) \<Rightarrow> (Sent r, w1)
      | _ \<Rightarrow> (Fail 500 ''error'' ''Weather API unavailable or invalid location'', w1))"

text \<open>\<open>POST /events/:id/weather-check\<close>\<close>

definition weatherCheck :: "env \<Rightarrow> int option \<Rightarrow> world \<Rightarrow> event_view reply \<times> world" where
  "weatherCheck E eid w =
     (let events = readDB w in
      case find_index (id_is eid) events of
        None \<Rightarrow> (Fail 404 ''error'' ''Event not found'', w)
      | Some i \<Rightarrow>
          (let event = events ! i;
               (rawWeather, w1) = safeGetWeather E (field event ''city'') (field event ''date'') w
           in case rawWeather of
                Some (Doc r) \<Rightarrow>
                  (let simplified = simplifyWeather r;
                       res = getSuitability (Some simplified) (field event ''type'');
                       event1 = AList.update ''weather'' (weather_json (Some simplified)) event;
                       event2 = AList.update ''score'' (JNum (of_int (score res))) event1;
                       event3 = AList.update ''suitability'' (JStr (suitability res)) event2
                   in (Sent (formatEvent event3), writeDB (events[i := event3]) w1))
              | _ \<Rightarrow> (Fail 500 ''error'' ''Weather check failed'', w1)))"

text \<open>\<open>GET /events/:id/suitability\<close>\<close>

definition getEventSuitability ::
  "int option \<Rightarrow> world \<Rightarrow> (json option \<times> json option) reply \<times> world" where
  "getEventSuitability eid w =
     (let events = readDB w in
      case find_index (id_is eid) events of
        None \<Rightarrow> (Fail 404 ''error'' ''Event not found'', w)
      | Some i \<Rightarrow>
          (Sent (field (events ! i) ''score'', field (events ! i) ''suitability''), w))"

text \<open>
  \<open>GET /events/:id/alternatives\<close>. The \<open>for\<close> loop over \<open>offset\<close> from \<open>-3\<close> to \<open>3\<close>, with its
  two \<open>continue\<close>s, pushes onto \<open>suggestions\<close>; \<open>Array.prototype.sort\<close> is stable, as is
  insertion sort on the negated score.
\<close>

record suggestion =
  sg_date :: string
  sg_score :: int
  sg_suitability :: string

function alt_loop ::
  "env \<Rightarrow> obj \<Rightarrow> int \<Rightarrow> suggestion list \<Rightarrow> world \<Rightarrow> (string + suggestion list) \<times> world"
where
  "alt_loop E event offset suggestions w =
     (if \<not> offset \<le> 3 then (Inr suggestions, w)
      else if offset = 0 then alt_loop E event (offset + 1) suggestions w
      else
        (case env_shiftDate E (field event ''date'') offset of
           None \<Rightarrow> (Inl ''RangeError'', w)
         | Some dateStr \<Rightarrow>
             (let (weatherRaw, w1) =
                    safeGetWeather E (field event ''city'') (Some (JStr dateStr)) w
              in case weatherRaw of
                   Some (Doc r) \<Rightarrow>
                     (let simplified = simplifyWeather r;
                          res = getSuitability (Some simplified) (field event ''type'')
                      in alt_loop E event (offset + 1)
                           (suggestions @
                              [\<lparr>sg_date = dateStr, sg_score = score res,
                                sg_suitability = suitability res\<rparr>])
                           w1)
                 | _ \<Rightarrow> alt_loop E event (offset + 1) suggestions w1)))"
  by pat_completeness auto
termination
  by (relation "measure (\<lambda>(E, event, offset, suggestions, w). nat (4 - offset))") auto

definition sort_desc :: "suggestion list \<Rightarrow> suggestion list" where
  "sort_desc suggestions = sort_key (\<lambda>s. - sg_score s) suggestions"

definition alternatives ::
  "env \<Rightarrow> int option \<Rightarrow> world \<Rightarrow> suggestion list reply \<times> world" where
  "alternatives E eid w =
     (let events = readDB w in
      case find_index (id_is eid) events of
        None \<Rightarrow> (Fail 404 ''error'' ''Event not found'', w)
      | Some i \<Rightarrow>
          (case alt_loop E (events ! i) (- 3) [] w of
             (Inl exn, w1) \<Rightarrow> (Threw exn, w1)
           | (Inr suggestions, w1) \<Rightarrow>
               if suggestions = []
               then (Fail 404 ''message''
                       ''No suitable alternatives found due to weather data unavailability.'',
                     w1)
               else (Sent (sort_desc suggestions), w1)))"

text \<open>A request to the service, and the state it leaves behind.\<close>

datatype request =
    PostEvent obj
  | GetEvents
  | PutEvent "int option" obj
  | GetRawWeather string string
  | WeatherCheck "int option"
  | GetEventSuitability "int option"
  | Alternatives "int option"

fun exec :: "env \<Rightarrow> request \<Rightarrow> world \<Rightarrow> world" where
  "exec E (PostEvent body) w = snd (postEvent E body w)"
| "exec E GetEvents w = snd (getEvents w)"
| "exec E (PutEvent eid body) w = snd (putEvent eid body w)"
| "exec E (GetRawWeather city date) w = snd (getRawWeather E city date w)"
| "exec E (WeatherCheck eid) w = snd (weatherCheck E eid w)"
| "exec E (GetEventSuitability eid) w = snd (getEventSuitability eid w)"
| "exec E (Alternatives eid) w = snd (alternatives E eid w)"

definition run :: "env \<Rightarrow> request list \<Rightarrow> world \<Rightarrow> world" where
  "run E reqs w = fold (exec E) reqs w"

section \<open>The scorer as the specification words it\<close>

text \<open>
  Reference definition written from the specification's text: base 50, seven independent
  additive adjustments each computed from the original description and values, a clamp to
  \<open>[0, 100]\<close>, and a label by exclusive lower bounds. Substring matching is
  case-insensitive.
\<close>

definition contains_ci :: "string \<Rightarrow> string \<Rightarrow> bool" where
  "contains_ci d p = (\<exists>pre post. toLowerCase d = pre @ p @ post)"

definition adj :: "bool \<Rightarrow> int \<Rightarrow> int" where
  "adj b k = (if b then k else 0)"

definition spec_raw_score :: "observation \<Rightarrow> json option \<Rightarrow> int" where
  "spec_raw_score w type =
     50 + adj (contains_ci (description w) ''clear'') 30
        + adj (contains_ci (description w) ''cloud'') 10
        + adj (contains_ci (description w) ''rain'') (- 30)
        + adj (wind w > 10) (- 10)
        + adj (temp w < 283 \<or> temp w > 303) (- 10)
        + adj (type = Some (JStr ''wedding'')) 10
        + adj (type = Some (JStr ''sports'')) (- 5)"

definition spec_clamp :: "int \<Rightarrow> int" where
  "spec_clamp s = (if s < 0 then 0 else if s > 100 then 100 else s)"

definition spec_label :: "int \<Rightarrow> string" where
  "spec_label s =
     (if s > 80 then ''Great'' else if s > 60 then ''Good''
      else if s > 40 then ''Okay'' else ''Poor'')"

definition spec_suitability :: "observation option \<Rightarrow> json option \<Rightarrow> suitability_result" where
  "spec_suitability weather type =
     (case weather of
        None \<Rightarrow> \<lparr>score = 0, suitability = ''Unknown''\<rparr>
      | Some w \<Rightarrow> \<lparr>score = spec_clamp (spec_raw_score w type),
                   suitability = spec_label (spec_clamp (spec_raw_score w type))\<rparr>)"

section \<open>The alternatives operation as the specification words it\<close>



definition fetched :: "string \<times> payload option \<Rightarrow> bool" where
  "fetched dr = (simplified_of (snd dr) \<noteq> None)"

definition suggestion_of :: "json option \<Rightarrow> string \<times> payload option \<Rightarrow> suggestion option" where
  "suggestion_of type dr =
     (case simplified_of (snd dr) of
        None \<Rightarrow> None
      | Some s \<Rightarrow>
          Some \<lparr>sg_date = fst dr,
                sg_score = score (getSuitability (Some s) type),
                sg_suitability = suitability (getSuitability (Some s) type)\<rparr>)"



section \<open>Predicates on stored events\<close>

text \<open>
  The three derived fields of a record all come from one observation \<open>obs\<close> (or from its
  absence) and the record's type.
\<close>

definition derived_from :: "observation option \<Rightarrow> obj \<Rightarrow> bool" where
  "derived_from obs e =
     (field e ''weather'' = Some (weather_json obs)
      \<and> field e ''score'' = Some (JNum (of_int (score (getSuitability obs (field e ''type'')))))
      \<and> field e ''suitability''
          = Some (JStr (suitability (getSuitability obs (field e ''type'')))))"

definition score_pair :: "obj \<Rightarrow> json option \<times> json option" where
  "score_pair e = (field e ''score'', field e ''suitability'')"

definition id_of :: "obj \<Rightarrow> json option" where
  "id_of e = field e ''id''"

text \<open>The ids of the stored records are \<open>1, 2, ..., n\<close> in storage order.\<close>

definition ids_sequential :: "obj list \<Rightarrow> bool" where
  "ids_sequential events =
     (map id_of events = map (\<lambda>n. Some (JNum (of_nat n))) [1 ..< Suc (length events)])"

definition mentions :: "obj \<Rightarrow> string \<Rightarrow> bool" where
  "mentions body k = (k \<in> fst ` set body)"

fun keeps_id :: "request \<Rightarrow> bool" where
  "keeps_id (PutEvent eid body) = (\<not> mentions body ''id'')"
| "keeps_id req = True"

section \<open>Sample data\<close>

text \<open>
  A provider that fails on every other request, the first one included, and in between
  answers with a clear and a rainy document in turn; a store holding one event; and the
  date arithmetic of a server in UTC around that event's date, 2024-06-15. An absent date
  is an invalid \<open>Date\<close>; the samples shift no other date.
\<close>

definition doc_of :: "string \<Rightarrow> real \<Rightarrow> real \<Rightarrow> raw" where
  "doc_of d t s =
     \<lparr>r_main = Some \<lparr>main_temp = Some t\<rparr>,
      r_weather = Some [\<lparr>item_description = Some d, item_icon = Some ''01d''\<rparr>],
      r_wind = Some \<lparr>wind_speed = Some s\<rparr>,
      r_clouds = None\<rparr>"

definition sample_fetch :: "nat \<Rightarrow> string \<Rightarrow> fetch_outcome" where
  "sample_fetch n url =
     (if even n then Response 503 None
      else if n mod 4 = 1 then Response 200 (Some (Doc (doc_of ''Clear sky'' 295 2)))
      else Response 200 (Some (Doc (doc_of ''light rain'' 290 3))))"

definition sample_shift :: "json option \<Rightarrow> int \<Rightarrow> string option" where
  "sample_shift d off =
     (if d = Some (JStr ''2024-06-15'') then
        (if off = - 3 then Some ''2024-06-12''
         else if off = - 2 then Some ''2024-06-13''
         else if off = - 1 then Some ''2024-06-14''
         else if off = 0 then Some ''2024-06-15''
         else if off = 1 then Some ''2024-06-16''
         else if off = 2 then Some ''2024-06-17''
         else if off = 3 then Some ''2024-06-18''
         else None)
      else None)"

definition sample_env :: env where
  "sample_env =
     \<lparr>env_fetch = sample_fetch,
      env_toString = (\<lambda>v. ''undefined''),
      env_shiftDate = sample_shift\<rparr>"

definition sample_event :: obj where
  "sample_event =
     [(''id'', JNum 1), (''name'', JStr ''Fair''), (''city'', JStr ''Pune''),
      (''date'', JStr ''2024-06-15''), (''type'', JStr ''sports''),
      (''score'', JNum 65), (''suitability'', JStr ''Good''),
      (''weather'', weather_json
         (Some \<lparr>temp = 290, description = ''clear and windy'', wind = 15,
                clouds = None, icon = ''01d''\<rparr>))]"

definition sample_world :: world where
  "sample_world = \<lparr>db_file = Some [sample_event], weatherCache = Map.empty, upstream = []\<rparr>"

definition sample_body :: obj where
  "sample_body =
     [(''name'', JStr ''Gala''), (''city'', JStr ''Oslo''),
      (''date'', JStr ''2024-07-01''), (''type'', JStr ''wedding'')]"


text \<open>A freshly started service: no store file, empty cache, no request made.\<close>

definition fresh_world :: world where
  "fresh_world = \<lparr>db_file = None, weatherCache = Map.empty, upstream = []\<rparr>"

text \<open>
  The record \<open>POST /events\<close> stores for an empty request body while the provider is down,
  alone in a store; and an update body that carries only a \<open>__proto__\<close> property.
\<close>

definition bare_event :: obj where
  "bare_event =
     [(''id'', JNum 1), (''score'', JNum 0), (''suitability'', JStr ''Unknown''),
      (''weather'', JNull)]"







section \<open>Properties of the scorer\<close>

lemma startsWith_iff: "startsWith s p \<longleftrightarrow> (\<exists>post. s = p @ post)"
  by (induction s p rule: startsWith.induct) auto

lemma includes_iff: "str_includes s p \<longleftrightarrow> (\<exists>pre post. s = pre @ p @ post)"
proof (induction s)
  case Nil
  show ?case by auto
next
  case (Cons c cs)
  show ?case
  proof
    assume "str_includes (c # cs) p"
    then consider "startsWith (c # cs) p" | "str_includes cs p" by auto
    then show "\<exists>pre post. c # cs = pre @ p @ post"
    proof cases
      case 1
      then obtain post where "c # cs = p @ post" using startsWith_iff by blast
      then have "c # cs = [] @ p @ post" by simp
      then show ?thesis by blast
    next
      case 2
      then obtain pre post where "cs = pre @ p @ post" using Cons.IH by blast
      then have "c # cs = (c # pre) @ p @ post" by simp
      then show ?thesis by blast
    qed
  next
    assume "\<exists>pre post. c # cs = pre @ p @ post"
    then obtain pre post where eq: "c # cs = pre @ p @ post" by blast
    show "str_includes (c # cs) p"
    proof (cases pre)
      case Nil
      with eq have "startsWith (c # cs) p" using startsWith_iff by auto
      then show ?thesis by simp
    next
      case (Cons a pre')
      with eq have "cs = pre' @ p @ post" by simp
      then have "str_includes cs p" using Cons.IH by blast
      then show ?thesis by simp
    qed
  qed
qed

lemma includes_contains_ci: "str_includes (toLowerCase d) p = contains_ci d p"
  by (simp add: includes_iff contains_ci_def)

lemma add_if_adj: "add_if c k s = s + adj c k"
  by (simp add: add_if_def adj_def)

lemma type_adjust_adj:
  "type_adjust type s = s + adj (type = Some (JStr ''wedding'')) 10
                          + adj (type = Some (JStr ''sports'')) (- 5)"
  by (simp add: type_adjust_def adj_def)

lemma clamp_eq: "max 0 (min 100 s) = spec_clamp s"
  by (simp add: spec_clamp_def)

lemma spec_label_cases: "spec_label s \<in> {''Great'', ''Good'', ''Okay'', ''Poor''}"
  by (simp add: spec_label_def)

lemma spec_clamp_range: "0 \<le> spec_clamp s \<and> spec_clamp s \<le> 100"
  by (simp add: spec_clamp_def)

lemma getSuitability_None: "getSuitability None type = \<lparr>score = 0, suitability = ''Unknown''\<rparr>"
  by (simp add: getSuitability_def)

lemma getSuitability_Some_score:
  "score (getSuitability (Some w) type) = spec_clamp (spec_raw_score w type)"
  unfolding getSuitability_def Let_def spec_raw_score_def
  by (simp only: option.case suitability_result.select_convs add_if_adj type_adjust_adj
      clamp_eq includes_contains_ci)

lemma getSuitability_Some_label:
  "suitability (getSuitability (Some w) type) = spec_label (spec_clamp (spec_raw_score w type))"
  unfolding getSuitability_def Let_def spec_raw_score_def spec_label_def
  by (simp only: option.case suitability_result.select_convs add_if_adj type_adjust_adj
      clamp_eq includes_contains_ci)

lemma getSuitability_Some:
  "getSuitability (Some w) type = spec_suitability (Some w) type"
proof -
  have "getSuitability (Some w) type
        = \<lparr>score = score (getSuitability (Some w) type),
           suitability = suitability (getSuitability (Some w) type)\<rparr>"
    by simp
  then show ?thesis
    by (simp only: getSuitability_Some_score getSuitability_Some_label spec_suitability_def
        option.case)
qed

lemma getSuitability_score_range:
  "0 \<le> score (getSuitability weather type) \<and> score (getSuitability weather type) \<le> 100"
proof (cases weather)
  case None
  then show ?thesis by (simp add: getSuitability_None)
next
  case (Some w)
  then show ?thesis by (simp only: getSuitability_Some_score spec_clamp_range)
qed

lemma getSuitability_Unknown_iff:
  "(suitability (getSuitability weather type) = ''Unknown'') = (weather = None)"
proof (cases weather)
  case None
  then show ?thesis by (simp add: getSuitability_None)
next
  case (Some w)
  have "spec_label (spec_clamp (spec_raw_score w type)) \<noteq> ''Unknown''"
    using spec_label_cases [of "spec_clamp (spec_raw_score w type)"] by auto
  with Some show ?thesis by (simp add: getSuitability_Some_label)
qed

text \<open>
  Claim C1. The scorer of the source equals the reference definition of the specification
  on every input: score 0 and label "Unknown" for a null observation; otherwise base 50
  plus the seven independent adjustments, clamped to [0, 100] and labelled by exclusive
  lower bounds. The score is always within [0, 100], the label is "Unknown" exactly for
  the null observation, the boundary scores 80, 60 and 40 fall into the lower band, and
  "clear and windy" at 290 K with wind 15 for a "sports" event scores 65, "Good".
\<close>

theorem getSuitability_refines_spec:
  "getSuitability weather type = spec_suitability weather type
   \<and> getSuitability None type = \<lparr>score = 0, suitability = ''Unknown''\<rparr>
   \<and> 0 \<le> score (getSuitability weather type)
   \<and> score (getSuitability weather type) \<le> 100
   \<and> (suitability (getSuitability weather type) = ''Unknown'') = (weather = None)
   \<and> spec_label 80 = ''Good'' \<and> spec_label 60 = ''Okay'' \<and> spec_label 40 = ''Poor''
   \<and> spec_label 81 = ''Great'' \<and> spec_label 61 = ''Good'' \<and> spec_label 41 = ''Okay''
   \<and> getSuitability
        (Some \<lparr>temp = 290, description = ''clear and windy'', wind = 15,
               clouds = None, icon = ''''\<rparr>)
        (Some (JStr ''sports''))
      = \<lparr>score = 65, suitability = ''Good''\<rparr>"
proof -
  have refine: "getSuitability weather type = spec_suitability weather type"
  proof (cases weather)
    case None
    then show ?thesis by (simp add: getSuitability_None spec_suitability_def)
  next
    case (Some w)
    then show ?thesis by (simp only: getSuitability_Some)
  qed
  have bounds: "spec_label 80 = ''Good'' \<and> spec_label 60 = ''Okay'' \<and> spec_label 40 = ''Poor''
     \<and> spec_label 81 = ''Great'' \<and> spec_label 61 = ''Good'' \<and> spec_label 41 = ''Okay''"
    by (simp add: spec_label_def)
  have ex: "getSuitability
        (Some \<lparr>temp = 290, description = ''clear and windy'', wind = 15,
               clouds = None, icon = ''''\<rparr>)
        (Some (JStr ''sports''))
      = \<lparr>score = 65, suitability = ''Good''\<rparr>"
    by (simp add: getSuitability_def Let_def toLowerCase_def lower_char_def add_if_def
        type_adjust_def)
  from refine getSuitability_None [of type] getSuitability_score_range [of weather type]
    getSuitability_Unknown_iff [of weather type] bounds ex
  show ?thesis by blast
qed

lemma find_index_Some:
  "find_index P xs = Some i \<Longrightarrow> i < length xs \<and> P (xs ! i)"
proof (induction xs arbitrary: i)
  case Nil
  then show ?case by simp
next
  case (Cons x xs)
  show ?case
  proof (cases "P x")
    case True
    with Cons.prems show ?thesis by simp
  next
    case False
    with Cons.prems obtain j where j: "find_index P xs = Some j" "i = Suc j"
      by (auto split: if_splits)
    with Cons.IH [of j] show ?thesis by simp
  qed
qed

lemma find_index_None: "find_index P xs = None \<longleftrightarrow> (\<forall>x \<in> set xs. \<not> P x)"
  by (induction xs) auto

lemma field_update: "field (AList.update k v e) k' = (if k' = k then Some v else field e k')"
  by (simp add: field_def update_conv')

lemma own_set_prop:
  "field (own (set_prop k v l)) k'
   = (if k' = k \<and> own (set_prop k v l) \<noteq> own l then Some v else field (own l) k')"
proof (cases "k = ''__proto__'' \<and> field (own l) ''__proto__'' = None \<and> setter_reachable (proto l)")
  case True
  then have "own (set_prop k v l) = own l"
    by (cases v) (simp_all add: set_prop_def)
  then show ?thesis by simp
next
  case False
  then have eq: "own (set_prop k v l) = AList.update k v (own l)"
    by (auto simp: set_prop_def)
  show ?thesis
  proof (cases "k' = k")
    case True
    show ?thesis
    proof (cases "AList.update k v (own l) = own l")
      case same: True
      have "field (AList.update k v (own l)) k = Some v"
        by (simp add: field_update)
      with same True eq show ?thesis by simp
    next
      case False
      with True eq show ?thesis by (simp add: field_update)
    qed
  next
    case False
    with eq show ?thesis by (simp add: field_update)
  qed
qed

lemma field_set_prop:
  assumes "k' \<noteq> ''__proto__''"
  shows "field (own (set_prop k v l)) k' = (if k' = k then Some v else field (own l) k')"
proof (cases "k' = k")
  case True
  with assms have "set_prop k v l = l\<lparr>own := AList.update k v (own l)\<rparr>"
    by (simp add: set_prop_def)
  with True show ?thesis by (simp add: field_update)
next
  case False
  then show ?thesis by (simp add: own_set_prop)
qed

lemma field_set_prop_other:
  "k' \<noteq> k \<Longrightarrow> field (own (set_prop k v l)) k' = field (own l) k'"
  by (simp add: own_set_prop)

lemma field_fold_set_prop:
  assumes "k \<noteq> ''__proto__''"
  shows "field (own (fold (\<lambda>(k, v) l. set_prop k v l) source l)) k
         = (case map_of (rev source) k of Some v \<Rightarrow> Some v | None \<Rightarrow> field (own l) k)"
proof (induction source arbitrary: l)
  case Nil
  show ?case by simp
next
  case (Cons kv source)
  obtain k' v' where kv: "kv = (k', v')" by (cases kv)
  have "field (own (fold (\<lambda>(k, v) l. set_prop k v l) (kv # source) l)) k
        = (case map_of (rev source) k of
             Some v \<Rightarrow> Some v
           | None \<Rightarrow> field (own (set_prop k' v' l)) k)"
    using Cons.IH [of "set_prop k' v' l"] by (simp add: kv)
  also have "\<dots> = (case map_of (rev (kv # source)) k of
                      Some v \<Rightarrow> Some v
                    | None \<Rightarrow> field (own l) k)"
    by (simp add: kv field_set_prop [OF assms] map_add_def split: option.splits)
  finally show ?case .
qed

lemma field_assign:
  assumes "k \<noteq> ''__proto__''"
  shows "field (own (assign target source)) k
         = (case map_of (rev source) k of Some v \<Rightarrow> Some v | None \<Rightarrow> field target k)"
  by (simp add: assign_def field_fold_set_prop [OF assms] split: option.splits)

lemma field_fold_absent:
  assumes "k \<notin> fst ` set source"
  shows "field (own (fold (\<lambda>(k, v) l. set_prop k v l) source l)) k = field (own l) k"
  using assms
proof (induction source arbitrary: l)
  case Nil
  show ?case by simp
next
  case (Cons kv source)
  obtain k' v' where kv: "kv = (k', v')" by (cases kv)
  from Cons.prems kv have ne: "k \<noteq> k'" and rest: "k \<notin> fst ` set source"
    by auto
  show ?case
    using Cons.IH [OF rest, of "set_prop k' v' l"] field_set_prop_other [OF ne, of v' l]
    by (simp add: kv)
qed

lemma field_assign_absent:
  assumes "k \<notin> fst ` set source"
  shows "field (own (assign target source)) k = field target k"
  by (simp add: assign_def field_fold_absent [OF assms])



lemma getWeather_Inl:
  assumes "getWeather E city date w = (Inl err, w')"
  shows "w' = w\<lparr>upstream := upstream w @ [weather_url E city]\<rparr>
         \<and> weatherCache w (cache_key E city date) = None"
  using assms
  by (auto simp: getWeather_def Let_def split: option.splits fetch_outcome.splits if_splits)



lemma getWeather_cache_mono:
  "weatherCache w k = Some d \<Longrightarrow> weatherCache (snd (getWeather E city date w)) k = Some d"
  by (auto simp: getWeather_def Let_def split: option.splits fetch_outcome.splits if_splits)

lemma getWeather_db: "db_file (snd (getWeather E city date w)) = db_file w"
  by (auto simp: getWeather_def Let_def split: option.splits fetch_outcome.splits if_splits)

lemma safeGetWeather_snd: "snd (safeGetWeather E city date w) = snd (getWeather E city date w)"
  by (auto simp: safeGetWeather_def split: prod.splits sum.splits)


lemma readDB_upstream [simp]: "readDB (w\<lparr>upstream := u\<rparr>) = readDB w"
  by (simp add: readDB_def)

lemma sample_city: "field sample_event ''city'' = Some (JStr ''Pune'')"
  by (simp add: sample_event_def field_def)

lemma sample_date: "field sample_event ''date'' = Some (JStr ''2024-06-15'')"
  by (simp add: sample_event_def field_def)

lemma sample_readDB: "readDB sample_world = [sample_event]"
  by (simp add: sample_world_def readDB_def)

lemma sample_find: "find_index (id_is (Some 1)) (readDB sample_world) = Some 0"
  by (simp add: sample_readDB id_is_def) (simp add: sample_event_def field_def)

lemma sample_first_fetch_fails:
  "getWeather sample_env (Some (JStr ''Pune'')) (Some (JStr ''2024-06-15'')) sample_world
   = (Inl (HttpError 503),
      sample_world\<lparr>upstream := upstream sample_world
         @ [weather_url sample_env (Some (JStr ''Pune''))]\<rparr>)"
  by (simp add: getWeather_def Let_def sample_world_def sample_env_def sample_fetch_def
      res_ok_def)

text \<open>
  Claim C2. When \<open>POST /events/:id/weather-check\<close> finds the event and the fetch for the
  event's city and date fails, the handler answers 500 "Weather check failed" and writes
  nothing: the store file, hence every stored record with its weather, score and
  suitability, and the cache are as before; only the attempted request is on record.
\<close>

theorem weatherCheck_failure_is_atomic:
  assumes "find_index (id_is eid) (readDB w) = Some i"
    and "getWeather E (field (readDB w ! i) ''city'') (field (readDB w ! i) ''date'') w
         = (Inl err, w')"
  shows "weatherCheck E eid w = (Fail 500 ''error'' ''Weather check failed'', w')
         \<and> db_file w' = db_file w
         \<and> readDB w' = readDB w
         \<and> weatherCache w' = weatherCache w"
proof -
  from getWeather_Inl [OF assms(2)]
  have w': "w' = w\<lparr>upstream := upstream w
              @ [weather_url E (field (readDB w ! i) ''city'')]\<rparr>"
    by simp
  have safe: "safeGetWeather E (field (readDB w ! i) ''city'') (field (readDB w ! i) ''date'') w
              = (None, w')"
    using assms(2) by (simp add: safeGetWeather_def)
  have reply: "weatherCheck E eid w = (Fail 500 ''error'' ''Weather check failed'', w')"
    using assms(1) safe by (simp add: weatherCheck_def Let_def)
  from reply w' show ?thesis by simp
qed

theorem weatherCheck_failure_is_atomic_witness:
  "find_index (id_is (Some 1)) (readDB sample_world) = Some 0
   \<and> weatherCheck sample_env (Some 1) sample_world
       = (Fail 500 ''error'' ''Weather check failed'',
          sample_world\<lparr>upstream := upstream sample_world
             @ [weather_url sample_env (Some (JStr ''Pune''))]\<rparr>)
   \<and> readDB (sample_world\<lparr>upstream := upstream sample_world
             @ [weather_url sample_env (Some (JStr ''Pune''))]\<rparr>) = [sample_event]"
proof -
  have fails: "getWeather sample_env (field (readDB sample_world ! 0) ''city'')
                 (field (readDB sample_world ! 0) ''date'') sample_world
               = (Inl (HttpError 503),
                  sample_world\<lparr>upstream := upstream sample_world
                     @ [weather_url sample_env (Some (JStr ''Pune''))]\<rparr>)"
    by (simp add: sample_readDB sample_city sample_date sample_first_fetch_fails)
  show ?thesis
    using weatherCheck_failure_is_atomic [OF sample_find fails] sample_find sample_readDB
    by simp
qed

text \<open>
  Claim C4. When the fetch for the request's city and date fails, \<open>POST /events\<close> still
  succeeds: it appends to the store, and returns, a new record whose weather is null,
  whose score is 0 and whose suitability is "Unknown"; the provider's error is not
  propagated.
\<close>

theorem postEvent_survives_fetch_failure:
  assumes "getWeather E (field body ''city'') (field body ''date'') w = (Inl err, w')"
  shows "\<exists>newEvent.
           postEvent E body w
             = (Sent (formatEvent newEvent), w'\<lparr>db_file := Some (readDB w @ [newEvent])\<rparr>)
           \<and> field newEvent ''weather'' = Some JNull
           \<and> field newEvent ''score'' = Some (JNum 0)
           \<and> field newEvent ''suitability'' = Some (JStr ''Unknown'')
           \<and> field newEvent ''id'' = Some (JNum (of_nat (length (readDB w) + 1)))
           \<and> field newEvent ''name'' = field body ''name''
           \<and> field newEvent ''city'' = field body ''city''
           \<and> field newEvent ''date'' = field body ''date''
           \<and> field newEvent ''type'' = field body ''type''
           \<and> (''weather'', Some JNull) \<in> set (formatEvent newEvent)
           \<and> (''score'', Some (JNum 0)) \<in> set (formatEvent newEvent)
           \<and> (''suitability'', Some (JStr ''Unknown'')) \<in> set (formatEvent newEvent)"
proof -
  define newEvent where "newEvent = mk_obj
            [(''id'', Some (JNum (of_nat (length (readDB w) + 1)))),
             (''name'', field body ''name''),
             (''city'', field body ''city''),
             (''date'', field body ''date''),
             (''type'', field body ''type''),
             (''score'', Some (JNum 0)),
             (''suitability'', Some (JStr ''Unknown'')),
             (''weather'', Some JNull)]"
  have safe: "safeGetWeather E (field body ''city'') (field body ''date'') w = (None, w')"
    using assms by (simp add: safeGetWeather_def)
  have post: "postEvent E body w
             = (Sent (formatEvent newEvent), w'\<lparr>db_file := Some (readDB w @ [newEvent])\<rparr>)"
    using getWeather_Inl [OF assms]
    by (simp add: postEvent_def Let_def safe simplified_of_def getSuitability_None
        weather_json_def writeDB_def newEvent_def)
  have fields: "field newEvent ''weather'' = Some JNull"
    "field newEvent ''score'' = Some (JNum 0)"
    "field newEvent ''suitability'' = Some (JStr ''Unknown'')"
    "field newEvent ''id'' = Some (JNum (of_nat (length (readDB w) + 1)))"
    "field newEvent ''name'' = field body ''name''"
    "field newEvent ''city'' = field body ''city''"
    "field newEvent ''date'' = field body ''date''"
    "field newEvent ''type'' = field body ''type''"
    unfolding newEvent_def
    by (cases "field body ''name''"; cases "field body ''city''"; cases "field body ''date''";
        cases "field body ''type''"; simp add: field_def)+
  have view: "(''weather'', Some JNull) \<in> set (formatEvent newEvent)"
    "(''score'', Some (JNum 0)) \<in> set (formatEvent newEvent)"
    "(''suitability'', Some (JStr ''Unknown'')) \<in> set (formatEvent newEvent)"
    using fields by (simp_all add: formatEvent_def event_keys_def)
  from post fields view show ?thesis by blast
qed


lemma sample_body_city: "field sample_body ''city'' = Some (JStr ''Oslo'')"
  by (simp add: sample_body_def field_def)

lemma sample_body_date: "field sample_body ''date'' = Some (JStr ''2024-07-01'')"
  by (simp add: sample_body_def field_def)

lemma sample_post_fetch_fails:
  "getWeather sample_env (field sample_body ''city'') (field sample_body ''date'') sample_world
   = (Inl (HttpError 503),
      sample_world\<lparr>upstream := upstream sample_world
         @ [weather_url sample_env (Some (JStr ''Oslo''))]\<rparr>)"
  by (simp add: sample_body_city sample_body_date getWeather_def Let_def sample_world_def
      sample_env_def sample_fetch_def res_ok_def)

theorem postEvent_survives_fetch_failure_witness:
  "getWeather sample_env (field sample_body ''city'') (field sample_body ''date'') sample_world
   = (Inl (HttpError 503),
      sample_world\<lparr>upstream := upstream sample_world
         @ [weather_url sample_env (Some (JStr ''Oslo''))]\<rparr>)
   \<and> fst (postEvent sample_env sample_body sample_world)
       = Sent [(''id'', Some (JNum 2)), (''name'', Some (JStr ''Gala'')),
               (''city'', Some (JStr ''Oslo'')), (''date'', Some (JStr ''2024-07-01'')),
               (''type'', Some (JStr ''wedding'')), (''score'', Some (JNum 0)),
               (''suitability'', Some (JStr ''Unknown'')), (''weather'', Some JNull)]
   \<and> length (readDB (snd (postEvent sample_env sample_body sample_world))) = 2"
proof -
  from postEvent_survives_fetch_failure [OF sample_post_fetch_fails]
  obtain newEvent where post: "postEvent sample_env sample_body sample_world
             = (Sent (formatEvent newEvent),
                sample_world\<lparr>upstream := upstream sample_world
                   @ [weather_url sample_env (Some (JStr ''Oslo''))],
                  db_file := Some (readDB sample_world @ [newEvent])\<rparr>)"
    and fields: "field newEvent ''weather'' = Some JNull"
      "field newEvent ''score'' = Some (JNum 0)"
      "field newEvent ''suitability'' = Some (JStr ''Unknown'')"
      "field newEvent ''id'' = Some (JNum (of_nat (length (readDB sample_world) + 1)))"
      "field newEvent ''name'' = field sample_body ''name''"
      "field newEvent ''city'' = field sample_body ''city''"
      "field newEvent ''date'' = field sample_body ''date''"
      "field newEvent ''type'' = field sample_body ''type''"
    by auto
  have body: "field sample_body ''name'' = Some (JStr ''Gala'')"
    "field sample_body ''type'' = Some (JStr ''wedding'')"
    by (simp_all add: sample_body_def field_def)
  have view: "formatEvent newEvent
       = [(''id'', Some (JNum 2)), (''name'', Some (JStr ''Gala'')),
               (''city'', Some (JStr ''Oslo'')), (''date'', Some (JStr ''2024-07-01'')),
               (''type'', Some (JStr ''wedding'')), (''score'', Some (JNum 0)),
               (''suitability'', Some (JStr ''Unknown'')), (''weather'', Some JNull)]"
    by (simp add: formatEvent_def event_keys_def fields body sample_body_city sample_body_date
        sample_readDB)
  have len: "length (readDB (snd (postEvent sample_env sample_body sample_world))) = 2"
    by (simp add: post readDB_def sample_readDB [unfolded readDB_def])
  from sample_post_fetch_fails post view len show ?thesis by simp
qed

text \<open>
  Claim C10. A fetch that fails (rejected request, non-success status or unparsable body)
  leaves the cache exactly as it was, so the key is still absent and the next fetch for
  the same city and date goes upstream again and returns whatever the provider then
  answers. Whatever a fetch does, an entry found in the cache afterwards was either there
  before or is the body of a success response written under the key of that fetch.
\<close>

theorem failed_fetch_is_not_cached:
  assumes "getWeather E city date w = (Inl err, w')"
  shows "weatherCache w' = weatherCache w
         \<and> weatherCache w' (cache_key E city date) = None
         \<and> db_file w' = db_file w
         \<and> upstream w' = upstream w @ [weather_url E city]
         \<and> safeGetWeather E city date w = (None, w')
         \<and> upstream (snd (getWeather E city date w')) = upstream w' @ [weather_url E city]
         \<and> (\<forall>status data.
               env_fetch E (length (upstream w')) (weather_url E city)
                 = Response status (Some data) \<and> res_ok status
               \<longrightarrow> fst (getWeather E city date w') = Inr data)
         \<and> (\<forall>c d v k x.
               weatherCache (snd (getWeather E c d v)) k = Some x
               \<longrightarrow> weatherCache v k = Some x
                   \<or> (k = cache_key E c d
                       \<and> (\<exists>status. res_ok status
                             \<and> env_fetch E (length (upstream v)) (weather_url E c)
                                 = Response status (Some x))))"
proof -
  from getWeather_Inl [OF assms]
  have w': "w' = w\<lparr>upstream := upstream w @ [weather_url E city]\<rparr>"
    and miss: "weatherCache w (cache_key E city date) = None"
    by simp_all
  have safe: "safeGetWeather E city date w = (None, w')"
    using assms by (simp add: safeGetWeather_def)
  have miss': "weatherCache w' (cache_key E city date) = None"
    using w' miss by simp
  have again: "upstream (snd (getWeather E city date w')) = upstream w' @ [weather_url E city]"
    using miss'
    by (auto simp: getWeather_def Let_def split: fetch_outcome.splits option.splits)
  have retry: "fst (getWeather E city date w') = Inr data"
    if "env_fetch E (length (upstream w')) (weather_url E city) = Response status (Some data)"
      and "res_ok status" for status data
    using miss' that by (simp add: getWeather_def Let_def)
  have only: "weatherCache v k = Some x
                   \<or> (k = cache_key E c d
                       \<and> (\<exists>status. res_ok status
                             \<and> env_fetch E (length (upstream v)) (weather_url E c)
                                 = Response status (Some x)))"
    if "weatherCache (snd (getWeather E c d v)) k = Some x" for c d v k x
    using that
    by (auto simp: getWeather_def Let_def
        split: fetch_outcome.splits option.splits if_splits)
  have same: "weatherCache w' = weatherCache w" "db_file w' = db_file w"
    "upstream w' = upstream w @ [weather_url E city]"
    using w' by simp_all
  from same miss' safe again retry only show ?thesis
    by blast
qed

theorem failed_fetch_is_not_cached_witness:
  "getWeather sample_env (Some (JStr ''Pune'')) (Some (JStr ''2024-06-15'')) sample_world
   = (Inl (HttpError 503),
      sample_world\<lparr>upstream := upstream sample_world
         @ [weather_url sample_env (Some (JStr ''Pune''))]\<rparr>)
   \<and> weatherCache (sample_world\<lparr>upstream := upstream sample_world
         @ [weather_url sample_env (Some (JStr ''Pune''))]\<rparr>) = weatherCache sample_world
   \<and> env_fetch sample_env 1 (weather_url sample_env (Some (JStr ''Pune'')))
       = Response 200 (Some (Doc (doc_of ''Clear sky'' 295 2)))
   \<and> res_ok 200
   \<and> fst (getWeather sample_env (Some (JStr ''Pune'')) (Some (JStr ''2024-06-15''))
           (sample_world\<lparr>upstream := upstream sample_world
              @ [weather_url sample_env (Some (JStr ''Pune''))]\<rparr>))
       = Inr (Doc (doc_of ''Clear sky'' 295 2))"
proof -
  have second: "env_fetch sample_env 1 (weather_url sample_env (Some (JStr ''Pune'')))
       = Response 200 (Some (Doc (doc_of ''Clear sky'' 295 2)))"
    by (simp add: sample_env_def sample_fetch_def)
  have len: "length (upstream (sample_world\<lparr>upstream := upstream sample_world
         @ [weather_url sample_env (Some (JStr ''Pune''))]\<rparr>)) = 1"
    by (simp add: sample_world_def)
  have ok: "res_ok 200"
    by (simp add: res_ok_def)
  show ?thesis
    using failed_fetch_is_not_cached [OF sample_first_fetch_fails] second len ok
      sample_first_fetch_fails
    by simp
qed

declare alt_loop.simps [simp del]

lemma readDB_db_file: "db_file w' = db_file w \<Longrightarrow> readDB w' = readDB w"
  by (simp add: readDB_def)

lemma readDB_writeDB [simp]: "readDB (writeDB events w) = events"
  by (simp add: readDB_def writeDB_def)

lemma weatherCache_writeDB [simp]: "weatherCache (writeDB events w) = weatherCache w"
  by (simp add: writeDB_def)

lemma getWeather_cache_le: "weatherCache w \<subseteq>\<^sub>m weatherCache (snd (getWeather E city date w))"
  by (auto simp: getWeather_def Let_def map_le_def
      split: option.splits fetch_outcome.splits if_splits)

lemma safeGetWeather_frame:
  assumes "safeGetWeather E city date w = (r, w1)"
  shows "db_file w1 = db_file w" and "weatherCache w \<subseteq>\<^sub>m weatherCache w1"
proof -
  have "w1 = snd (getWeather E city date w)"
    using assms safeGetWeather_snd [of E city date w] by simp
  then show "db_file w1 = db_file w" and "weatherCache w \<subseteq>\<^sub>m weatherCache w1"
    by (simp_all add: getWeather_db getWeather_cache_le)
qed

lemma simplified_of_cases:
  "simplified_of r = None \<longleftrightarrow> (r = None \<or> r = Some FalsyDoc)"
  "simplified_of r = Some s \<longleftrightarrow> (\<exists>d. r = Some (Doc d) \<and> s = simplifyWeather d)"
  by (auto simp: simplified_of_def split: option.splits payload.splits)

lemma alt_loop_done:
  "\<not> offset \<le> 3 \<Longrightarrow> alt_loop E event offset acc w = (Inr acc, w)"
  by (subst alt_loop.simps) simp

lemma alt_loop_zero:
  "alt_loop E event 0 acc w = alt_loop E event 1 acc w"
  by (subst alt_loop.simps) simp

lemma alt_loop_throw:
  assumes "offset \<le> 3" "offset \<noteq> 0"
    and "env_shiftDate E (field event ''date'') offset = None"
  shows "alt_loop E event offset acc w = (Inl ''RangeError'', w)"
  using assms by (subst alt_loop.simps) simp

lemma alt_loop_skip:
  assumes "offset \<le> 3" "offset \<noteq> 0"
    and "env_shiftDate E (field event ''date'') offset = Some dateStr"
    and "safeGetWeather E (field event ''city'') (Some (JStr dateStr)) w = (r, w1)"
    and "simplified_of r = None"
  shows "alt_loop E event offset acc w = alt_loop E event (offset + 1) acc w1"
  using assms(5) [unfolded simplified_of_cases] assms(1-4)
  by (subst alt_loop.simps) auto

lemma alt_loop_push:
  assumes "offset \<le> 3" "offset \<noteq> 0"
    and "env_shiftDate E (field event ''date'') offset = Some dateStr"
    and "safeGetWeather E (field event ''city'') (Some (JStr dateStr)) w = (r, w1)"
    and "simplified_of r = Some s"
  shows "alt_loop E event offset acc w
         = alt_loop E event (offset + 1)
             (acc @ [\<lparr>sg_date = dateStr,
                      sg_score = score (getSuitability (Some s) (field event ''type'')),
                      sg_suitability = suitability (getSuitability (Some s) (field event ''type''))\<rparr>])
             w1"
  using assms(5) [unfolded simplified_of_cases] assms(1-4)
  by (subst alt_loop.simps) (auto simp: Let_def)

lemma alt_loop_frame:
  "db_file (snd (alt_loop E event offset acc w)) = db_file w
   \<and> weatherCache w \<subseteq>\<^sub>m weatherCache (snd (alt_loop E event offset acc w))"
proof (induction "nat (4 - offset)" arbitrary: offset acc w rule: less_induct)
  case less
  show ?case
  proof (cases "offset \<le> 3")
    case False
    then show ?thesis by (simp add: alt_loop_done)
  next
    case le: True
    have smaller: "nat (4 - (offset + 1)) < nat (4 - offset)"
      using le by simp
    note IH = less.hyps [OF smaller]
    show ?thesis
    proof (cases "offset = 0")
      case True
      with IH [of acc w] show ?thesis by (simp add: alt_loop_zero)
    next
      case nz: False
      show ?thesis
      proof (cases "env_shiftDate E (field event ''date'') offset")
        case None
        with le nz show ?thesis by (simp add: alt_loop_throw)
      next
        case (Some dateStr)
        obtain r w1 where sg:
          "safeGetWeather E (field event ''city'') (Some (JStr dateStr)) w = (r, w1)"
          by fastforce
        note fr = safeGetWeather_frame [OF sg]
        show ?thesis
        proof (cases "simplified_of r")
          case None
          note eq = alt_loop_skip [OF le nz Some sg None, of acc]
          from IH [of acc w1] fr show ?thesis
            unfolding eq using map_le_trans by fastforce
        next
          case (Some s)
          note eq = alt_loop_push
            [OF le nz \<open>env_shiftDate E (field event ''date'') offset = Some dateStr\<close> sg Some,
              of acc]
          from IH [of _ w1] fr show ?thesis
            unfolding eq using map_le_trans by fastforce
        qed
      qed
    qed
  qed
qed

lemma field_mk_obj_new:
  "field (mk_obj
            [(''id'', Some a), (''name'', n), (''city'', c), (''date'', d), (''type'', t),
             (''score'', Some s), (''suitability'', Some l), (''weather'', Some x)]) k
   = (if k = ''id'' then Some a else if k = ''name'' then n else if k = ''city'' then c
      else if k = ''date'' then d else if k = ''type'' then t
      else if k = ''score'' then Some s else if k = ''suitability'' then Some l
      else if k = ''weather'' then Some x else None)"
  by (cases n; cases c; cases d; cases t) (simp_all add: field_def)

lemma postEvent_effect:
  obtains newEvent where
    "snd (postEvent E body w)
     = writeDB (readDB w @ [newEvent])
         (snd (safeGetWeather E (field body ''city'') (field body ''date'') w))"
    "derived_from
       (simplified_of (fst (safeGetWeather E (field body ''city'') (field body ''date'') w)))
       newEvent"
    "id_of newEvent = Some (JNum (of_nat (length (readDB w) + 1)))"
proof -
  obtain r w1 where sg:
    "safeGetWeather E (field body ''city'') (field body ''date'') w = (r, w1)"
    by fastforce
  define res where "res = getSuitability (simplified_of r) (field body ''type'')"
  define newEvent where "newEvent = mk_obj
            [(''id'', Some (JNum (of_nat (length (readDB w) + 1)))),
             (''name'', field body ''name''),
             (''city'', field body ''city''),
             (''date'', field body ''date''),
             (''type'', field body ''type''),
             (''score'', Some (JNum (of_int (score res)))),
             (''suitability'', Some (JStr (suitability res))),
             (''weather'', Some (weather_json (simplified_of r)))]"
  have a: "snd (postEvent E body w) = writeDB (readDB w @ [newEvent])
         (snd (safeGetWeather E (field body ''city'') (field body ''date'') w))"
    by (simp add: postEvent_def Let_def sg newEvent_def res_def)
  have b: "derived_from
       (simplified_of (fst (safeGetWeather E (field body ''city'') (field body ''date'') w)))
       newEvent"
    unfolding derived_from_def sg newEvent_def field_mk_obj_new by (simp add: res_def)
  have c: "id_of newEvent = Some (JNum (of_nat (length (readDB w) + 1)))"
    unfolding id_of_def newEvent_def field_mk_obj_new by simp
  from a b c that show thesis by blast
qed

lemma putEvent_effect:
  obtains (missing) "snd (putEvent eid body w) = w"
  | (merged) i where "find_index (id_is eid) (readDB w) = Some i" "i < length (readDB w)"
      "snd (putEvent eid body w)
       = writeDB ((readDB w)[i := own (assign (readDB w ! i) body)]) w"
proof (cases "find_index (id_is eid) (readDB w)")
  case None
  then have "snd (putEvent eid body w) = w" by (simp add: putEvent_def)
  then show thesis by (rule missing)
next
  case (Some i)
  have "i < length (readDB w)" using find_index_Some [OF Some] by simp
  moreover have "snd (putEvent eid body w)
                 = writeDB ((readDB w)[i := own (assign (readDB w ! i) body)]) w"
    using Some by (simp add: putEvent_def Let_def)
  ultimately show thesis using Some by (rule merged [rotated])
qed

lemma weatherCheck_effect:
  obtains (untouched) "db_file (snd (weatherCheck E eid w)) = db_file w"
      "weatherCache w \<subseteq>\<^sub>m weatherCache (snd (weatherCheck E eid w))"
  | (refreshed) i r event' where
      "find_index (id_is eid) (readDB w) = Some i" "i < length (readDB w)"
      "fst (safeGetWeather E (field (readDB w ! i) ''city'')
              (field (readDB w ! i) ''date'') w) = Some (Doc r)"
      "snd (weatherCheck E eid w)
        = writeDB ((readDB w)[i := event'])
            (snd (safeGetWeather E (field (readDB w ! i) ''city'')
                    (field (readDB w ! i) ''date'') w))"
      "derived_from (Some (simplifyWeather r)) event'"
      "id_of event' = id_of (readDB w ! i)"
proof (cases "find_index (id_is eid) (readDB w)")
  case None
  then have "snd (weatherCheck E eid w) = w" by (simp add: weatherCheck_def)
  then show thesis using untouched by simp
next
  case (Some i)
  note found = this
  obtain r w1 where sg:
    "safeGetWeather E (field (readDB w ! i) ''city'') (field (readDB w ! i) ''date'') w = (r, w1)"
    by fastforce
  note fr = safeGetWeather_frame [OF sg]
  show thesis
  proof (cases "simplified_of r")
    case None
    then have "snd (weatherCheck E eid w) = w1"
      using found sg by (auto simp: weatherCheck_def Let_def simplified_of_cases)
    with fr show thesis using untouched by simp
  next
    case (Some s)
    then obtain d where d: "r = Some (Doc d)" "s = simplifyWeather d"
      by (auto simp: simplified_of_cases)
    define res where "res = getSuitability (Some (simplifyWeather d)) (field (readDB w ! i) ''type'')"
    define event' where "event' =
       AList.update ''suitability'' (JStr (suitability res))
         (AList.update ''score'' (JNum (of_int (score res)))
            (AList.update ''weather'' (weather_json (Some (simplifyWeather d))) (readDB w ! i)))"
    have a: "snd (weatherCheck E eid w)
             = writeDB ((readDB w)[i := event'])
                 (snd (safeGetWeather E (field (readDB w ! i) ''city'')
                    (field (readDB w ! i) ''date'') w))"
      using found sg d by (simp add: weatherCheck_def Let_def event'_def res_def)
    have b: "derived_from (Some (simplifyWeather d)) event'"
      by (simp add: derived_from_def event'_def field_update res_def)
    have c: "id_of event' = id_of (readDB w ! i)"
      by (simp add: id_of_def event'_def field_update)
    have e: "fst (safeGetWeather E (field (readDB w ! i) ''city'')
              (field (readDB w ! i) ''date'') w) = Some (Doc d)"
      using sg d by simp
    have f: "i < length (readDB w)" using find_index_Some [OF found] by simp
    show thesis by (rule refreshed [OF found f e a b c])
  qed
qed

lemma getRawWeather_snd:
  "snd (getRawWeather E city date w)
   = snd (safeGetWeather E (Some (JStr city)) (Some (JStr date)) w)"
  by (auto simp: getRawWeather_def split: prod.splits option.splits payload.splits)

lemma alternatives_frame:
  "db_file (snd (alternatives E eid w)) = db_file w
   \<and> weatherCache w \<subseteq>\<^sub>m weatherCache (snd (alternatives E eid w))"
proof (cases "find_index (id_is eid) (readDB w)")
  case None
  then show ?thesis by (simp add: alternatives_def)
next
  case (Some i)
  obtain res w1 where al: "alt_loop E (readDB w ! i) (- 3) [] w = (res, w1)"
    by fastforce
  have "snd (alternatives E eid w) = w1"
    using Some al by (cases res) (simp_all add: alternatives_def)
  with alt_loop_frame [of E "readDB w ! i" "- 3" "[]" w] al show ?thesis by simp
qed






lemma field_mk_obj_map:
  "field (mk_obj (map (\<lambda>k. (k, f k)) ks)) k = (if k \<in> set ks then f k else None)"
proof (induction ks)
  case Nil
  show ?case by (simp add: field_def)
next
  case (Cons a ks)
  then show ?case
    by (cases "f a") (auto simp: field_def)
qed

lemma keys_mk_obj_map:
  "map fst (mk_obj (map (\<lambda>k. (k, f k)) ks)) = filter (\<lambda>k. f k \<noteq> None) ks"
proof (induction ks)
  case Nil
  show ?case by simp
next
  case (Cons a ks)
  then show ?case by (cases "f a") simp_all
qed

lemma postEvent_reply:
  "fst (postEvent E body w) = Sent (formatEvent (last (readDB (snd (postEvent E body w)))))"
  by (simp add: postEvent_def Let_def split_def)

lemma putEvent_reply:
  assumes "find_index (id_is eid) (readDB w) = Some i"
  shows "fst (putEvent eid body w) = Sent (formatEvent (visible (assign (readDB w ! i) body)))"
  using assms by (simp add: putEvent_def Let_def)

lemma weatherCheck_reply:
  assumes "find_index (id_is eid) (readDB w) = Some i"
  shows "fst (weatherCheck E eid w) = Fail 500 ''error'' ''Weather check failed''
         \<or> fst (weatherCheck E eid w)
             = Sent (formatEvent (readDB (snd (weatherCheck E eid w)) ! i))"
proof -
  have len: "i < length (readDB w)"
    using find_index_Some [OF assms] by simp
  obtain r w1 where sg:
    "safeGetWeather E (field (readDB w ! i) ''city'') (field (readDB w ! i) ''date'') w = (r, w1)"
    by fastforce
  show ?thesis
  proof (cases "simplified_of r")
    case None
    then have "fst (weatherCheck E eid w) = Fail 500 ''error'' ''Weather check failed''"
      using assms sg by (auto simp: weatherCheck_def Let_def simplified_of_cases)
    then show ?thesis by (rule disjI1)
  next
    case (Some s)
    then obtain d where "r = Some (Doc d)"
      by (auto simp: simplified_of_cases)
    then have "fst (weatherCheck E eid w)
               = Sent (formatEvent (readDB (snd (weatherCheck E eid w)) ! i))"
      using assms sg len by (simp add: weatherCheck_def Let_def)
    then show ?thesis by (rule disjI2)
  qed
qed

text \<open>
  Claim C9, as the code has it. The JSON text an endpoint sends for a record it formats
  has no field other than id, name, city, date, type, score, suitability and weather, so
  every other field of the record is left out; it has each of these eight exactly when
  the record has a value for it, with that value and in that order, hence all eight when
  the record has all eight. The record formatted is the one just stored (create,
  weather-check), each stored record (list), and for an update the merged object as
  \<open>formatEvent\<close> reads it.
\<close>

theorem event_json_has_only_event_fields:
  "(\<forall>k. field (res_json (formatEvent event)) k
          = (if k \<in> set event_keys then field event k else None))
   \<and> map fst (res_json (formatEvent event))
       = filter (\<lambda>k. field event k \<noteq> None)
           [''id'', ''name'', ''city'', ''date'', ''type'', ''score'', ''suitability'',
            ''weather'']
   \<and> (\<forall>k. k \<notin> set event_keys \<longrightarrow> k \<notin> fst ` set (res_json (formatEvent event)))
   \<and> (list_all (\<lambda>k. field event k \<noteq> None) event_keys \<longrightarrow>
         map fst (res_json (formatEvent event))
         = [''id'', ''name'', ''city'', ''date'', ''type'', ''score'', ''suitability'',
            ''weather''])
   \<and> fst (postEvent E body w) = Sent (formatEvent (last (readDB (snd (postEvent E body w)))))
   \<and> fst (getEvents w) = Sent (map formatEvent (readDB w))
   \<and> (find_index (id_is eid) (readDB w) = None \<longrightarrow>
         fst (putEvent eid body w) = Fail 404 ''error'' ''Event not found''
         \<and> fst (weatherCheck E eid w) = Fail 404 ''error'' ''Event not found'')
   \<and> (\<forall>i. find_index (id_is eid) (readDB w) = Some i \<longrightarrow>
         fst (putEvent eid body w)
           = Sent (formatEvent (visible (assign (readDB w ! i) body)))
         \<and> (fst (weatherCheck E eid w) = Fail 500 ''error'' ''Weather check failed''
             \<or> fst (weatherCheck E eid w)
                 = Sent (formatEvent (readDB (snd (weatherCheck E eid w)) ! i))))"
proof -
  have vals: "\<forall>k. field (res_json (formatEvent event)) k
          = (if k \<in> set event_keys then field event k else None)"
    by (simp add: res_json_def formatEvent_def field_mk_obj_map)
  have keys: "map fst (res_json (formatEvent event))
              = filter (\<lambda>k. field event k \<noteq> None) event_keys"
    by (simp add: res_json_def formatEvent_def keys_mk_obj_map)
  have others: "\<forall>k. k \<notin> set event_keys \<longrightarrow> k \<notin> fst ` set (res_json (formatEvent event))"
  proof (intro allI impI)
    fix k
    assume "k \<notin> set event_keys"
    then have "k \<notin> set (map fst (res_json (formatEvent event)))"
      unfolding keys by simp
    then show "k \<notin> fst ` set (res_json (formatEvent event))"
      by simp
  qed
  have full: "list_all (\<lambda>k. field event k \<noteq> None) event_keys \<longrightarrow>
         map fst (res_json (formatEvent event)) = event_keys"
    unfolding keys by (simp add: list_all_iff)
  have missing: "find_index (id_is eid) (readDB w) = None \<longrightarrow>
         fst (putEvent eid body w) = Fail 404 ''error'' ''Event not found''
         \<and> fst (weatherCheck E eid w) = Fail 404 ''error'' ''Event not found''"
    by (simp add: putEvent_def weatherCheck_def)
  have found: "\<forall>i. find_index (id_is eid) (readDB w) = Some i \<longrightarrow>
         fst (putEvent eid body w)
           = Sent (formatEvent (visible (assign (readDB w ! i) body)))
         \<and> (fst (weatherCheck E eid w) = Fail 500 ''error'' ''Weather check failed''
             \<or> fst (weatherCheck E eid w)
                 = Sent (formatEvent (readDB (snd (weatherCheck E eid w)) ! i)))"
    using putEvent_reply weatherCheck_reply by blast
  have list: "fst (getEvents w) = Sent (map formatEvent (readDB w))"
    by (simp add: getEvents_def)
  from vals keys others full postEvent_reply [of E body w] list missing found
  show ?thesis
    unfolding event_keys_def by (intro conjI)
qed

theorem event_json_has_only_event_fields_witness:
  "''admin'' \<notin> set event_keys
   \<and> list_all (\<lambda>k. field (AList.update ''admin'' (JBool True) sample_event) k \<noteq> None)
       event_keys
   \<and> field (AList.update ''admin'' (JBool True) sample_event) ''admin'' = Some (JBool True)
   \<and> ''admin'' \<notin> fst ` set
        (res_json (formatEvent (AList.update ''admin'' (JBool True) sample_event)))
   \<and> map fst (res_json (formatEvent (AList.update ''admin'' (JBool True) sample_event)))
       = [''id'', ''name'', ''city'', ''date'', ''type'', ''score'', ''suitability'',
          ''weather'']
   \<and> find_index (id_is (Some 1)) (readDB sample_world) = Some 0
   \<and> fst (putEvent (Some 1) [(''admin'', JBool True)] sample_world)
       = Sent (formatEvent (visible (assign (readDB sample_world ! 0)
                 [(''admin'', JBool True)])))
   \<and> find_index (id_is (Some 2)) (readDB sample_world) = None
   \<and> fst (putEvent (Some 2) [(''admin'', JBool True)] sample_world)
       = Fail 404 ''error'' ''Event not found''"
proof -
  have h1: "''admin'' \<notin> set event_keys"
    by (simp add: event_keys_def)
  have h2: "list_all (\<lambda>k. field (AList.update ''admin'' (JBool True) sample_event) k \<noteq> None)
       event_keys"
    by (simp add: event_keys_def field_update) (simp add: sample_event_def field_def)
  have h3: "field (AList.update ''admin'' (JBool True) sample_event) ''admin''
            = Some (JBool True)"
    by (simp add: field_update)
  from event_json_has_only_event_fields
    [where event = "AList.update ''admin'' (JBool True) sample_event"] h1 h2
  have "''admin'' \<notin> fst ` set
        (res_json (formatEvent (AList.update ''admin'' (JBool True) sample_event)))"
    and "map fst (res_json (formatEvent (AList.update ''admin'' (JBool True) sample_event)))
       = [''id'', ''name'', ''city'', ''date'', ''type'', ''score'', ''suitability'',
          ''weather'']"
    by blast+
  note fields = this
  have h4: "find_index (id_is (Some 2)) (readDB sample_world) = None"
    by (simp add: sample_readDB id_is_def) (simp add: sample_event_def field_def)
  from event_json_has_only_event_fields
    [where eid = "Some 1" and w = sample_world and body = "[(''admin'', JBool True)]"]
    sample_find
  have put: "fst (putEvent (Some 1) [(''admin'', JBool True)] sample_world)
       = Sent (formatEvent (visible (assign (readDB sample_world ! 0)
                 [(''admin'', JBool True)])))"
    by blast
  from event_json_has_only_event_fields
    [where eid = "Some 2" and w = sample_world and body = "[(''admin'', JBool True)]"] h4
  have missing: "fst (putEvent (Some 2) [(''admin'', JBool True)] sample_world)
       = Fail 404 ''error'' ''Event not found''"
    by blast
  from h1 h2 h3 fields sample_find put h4 missing show ?thesis by (intro conjI)
qed

lemma fresh_post_fetch_fails:
  "safeGetWeather sample_env None None fresh_world
   = (None, fresh_world\<lparr>upstream := [weather_url sample_env None]\<rparr>)"
  by (simp add: safeGetWeather_def getWeather_def Let_def fresh_world_def sample_env_def
      sample_fetch_def res_ok_def)

text \<open>
  Claim C9 as stated fails: for an empty request body while the provider is down,
  \<open>POST /events\<close> formats a record without name, city, date and type, and the JSON it
  sends has four fields, not eight.
\<close>

theorem postEvent_reply_has_four_fields:
  "fst (postEvent sample_env [] fresh_world)
     = Sent [(''id'', Some (JNum 1)), (''name'', None), (''city'', None), (''date'', None),
             (''type'', None), (''score'', Some (JNum 0)),
             (''suitability'', Some (JStr ''Unknown'')), (''weather'', Some JNull)]
   \<and> res_json [(''id'', Some (JNum 1)), (''name'', None), (''city'', None), (''date'', None),
               (''type'', None), (''score'', Some (JNum 0)),
               (''suitability'', Some (JStr ''Unknown'')), (''weather'', Some JNull)]
       = [(''id'', JNum 1), (''score'', JNum 0), (''suitability'', JStr ''Unknown''),
          (''weather'', JNull)]
   \<and> readDB (snd (postEvent sample_env [] fresh_world)) = [bare_event]"
proof -
  have empty: "readDB fresh_world = []"
    by (simp add: fresh_world_def readDB_def)
  have stored: "readDB (snd (postEvent sample_env [] fresh_world)) = [bare_event]"
    by (simp add: postEvent_def Let_def field_def fresh_post_fetch_fails simplified_of_def
        getSuitability_None weather_json_def empty bare_event_def)
  have reply: "fst (postEvent sample_env [] fresh_world) = Sent (formatEvent bare_event)"
    using postEvent_reply [of sample_env "[]" fresh_world] stored by simp
  have view: "formatEvent bare_event
     = [(''id'', Some (JNum 1)), (''name'', None), (''city'', None), (''date'', None),
             (''type'', None), (''score'', Some (JNum 0)),
             (''suitability'', Some (JStr ''Unknown'')), (''weather'', Some JNull)]"
    by (simp add: formatEvent_def event_keys_def bare_event_def field_def)
  have json: "res_json [(''id'', Some (JNum 1)), (''name'', None), (''city'', None),
               (''date'', None), (''type'', None), (''score'', Some (JNum 0)),
               (''suitability'', Some (JStr ''Unknown'')), (''weather'', Some JNull)]
       = [(''id'', JNum 1), (''score'', JNum 0), (''suitability'', JStr ''Unknown''),
          (''weather'', JNull)]"
    by (simp add: res_json_def)
  from reply view json stored show ?thesis by simp
qed







lemma map_update_same:
  "i < length xs \<Longrightarrow> f x = f (xs ! i) \<Longrightarrow> map f (xs[i := x]) = map f xs"
  by (simp add: map_update list_update_same_conv)

lemma map_score_pair:
  "map score_pair es
   = zip (map (\<lambda>e. field e ''score'') es) (map (\<lambda>e. field e ''suitability'') es)"
  by (induction es) (simp_all add: score_pair_def)

lemma exec_db_other:
  "readDB (exec E GetEvents w) = readDB w"
  "readDB (exec E (GetRawWeather city date) w) = readDB w"
  "readDB (exec E (GetEventSuitability eid) w) = readDB w"
  "readDB (exec E (Alternatives eid) w) = readDB w"
proof -
  show "readDB (exec E GetEvents w) = readDB w"
    by (simp add: getEvents_def)
  show "readDB (exec E (GetRawWeather city date) w) = readDB w"
    by (rule readDB_db_file) (simp add: getRawWeather_snd safeGetWeather_snd getWeather_db)
  show "readDB (exec E (GetEventSuitability eid) w) = readDB w"
    by (simp add: getEventSuitability_def Let_def split: option.splits)
  show "readDB (exec E (Alternatives eid) w) = readDB w"
    by (rule readDB_db_file) (simp add: alternatives_frame)
qed

lemma putEvent_keeps:
  assumes "\<not> mentions body k"
  shows "map (\<lambda>e. field e k) (readDB (snd (putEvent eid body w)))
         = map (\<lambda>e. field e k) (readDB w)"
proof (cases rule: putEvent_effect [of eid body w])
  case missing
  then show ?thesis by simp
next
  case (merged i)
  have "field (own (assign (readDB w ! i) body)) k = field (readDB w ! i) k"
    using assms by (simp add: mentions_def field_assign_absent)
  with merged show ?thesis by (simp add: map_update_same)
qed

lemma putEvent_store:
  "readDB (snd (putEvent eid body w))
   = (case find_index (id_is eid) (readDB w) of
        None \<Rightarrow> readDB w
      | Some i \<Rightarrow> (readDB w)[i := own (assign (readDB w ! i) body)])"
  by (simp add: putEvent_def Let_def split: option.splits)

text \<open>
  Claim C6, as the code has it. \<open>POST /events\<close> appends a record whose weather, score and
  suitability all come from the one observation it fetched (or from its absence), and
  \<open>weather-check\<close> either leaves the store alone or rewrites the three fields of the one
  record from the one observation it fetched. \<open>PUT /events/:id\<close> changes the addressed
  record only; there the score becomes the value the request body carries for it and
  stays as it was when the body carries none, and the same holds, independently, for
  the suitability. No other request changes the store.
\<close>

theorem score_and_suitability_written_together:
  "(case req of
      PostEvent body \<Rightarrow>
        (\<exists>newEvent.
           readDB (exec E req w) = readDB w @ [newEvent]
           \<and> derived_from
               (simplified_of
                  (fst (safeGetWeather E (field body ''city'') (field body ''date'') w)))
               newEvent)
    | WeatherCheck eid \<Rightarrow>
        readDB (exec E req w) = readDB w
        \<or> (\<exists>i r event'.
              find_index (id_is eid) (readDB w) = Some i
              \<and> fst (safeGetWeather E (field (readDB w ! i) ''city'')
                       (field (readDB w ! i) ''date'') w) = Some (Doc r)
              \<and> readDB (exec E req w) = (readDB w)[i := event']
              \<and> derived_from (Some (simplifyWeather r)) event')
    | PutEvent eid body \<Rightarrow>
        (case find_index (id_is eid) (readDB w) of
           None \<Rightarrow> readDB (exec E req w) = readDB w
         | Some i \<Rightarrow>
             (\<exists>event'.
                readDB (exec E req w) = (readDB w)[i := event']
                \<and> field event' ''score''
                    = (case map_of (rev body) ''score'' of
                         Some v \<Rightarrow> Some v
                       | None \<Rightarrow> field (readDB w ! i) ''score'')
                \<and> field event' ''suitability''
                    = (case map_of (rev body) ''suitability'' of
                         Some v \<Rightarrow> Some v
                       | None \<Rightarrow> field (readDB w ! i) ''suitability'')))
    | _ \<Rightarrow> readDB (exec E req w) = readDB w)"
proof (cases req)
  case (PostEvent body)
  obtain newEvent where a:
    "snd (postEvent E body w)
     = writeDB (readDB w @ [newEvent])
         (snd (safeGetWeather E (field body ''city'') (field body ''date'') w))"
    and b: "derived_from
       (simplified_of (fst (safeGetWeather E (field body ''city'') (field body ''date'') w)))
       newEvent"
    by (rule postEvent_effect)
  have "readDB (exec E (PostEvent body) w) = readDB w @ [newEvent]"
    using a by simp
  with b have "\<exists>newEvent.
           readDB (exec E (PostEvent body) w) = readDB w @ [newEvent]
           \<and> derived_from
               (simplified_of
                  (fst (safeGetWeather E (field body ''city'') (field body ''date'') w)))
               newEvent"
    by (intro exI conjI)
  then show ?thesis by (simp only: PostEvent request.case)
next
  case GetEvents
  show ?thesis by (simp only: GetEvents request.case exec_db_other)
next
  case (PutEvent eid body)
  have "case find_index (id_is eid) (readDB w) of
           None \<Rightarrow> readDB (exec E (PutEvent eid body) w) = readDB w
         | Some i \<Rightarrow>
             (\<exists>event'.
                readDB (exec E (PutEvent eid body) w) = (readDB w)[i := event']
                \<and> field event' ''score''
                    = (case map_of (rev body) ''score'' of
                         Some v \<Rightarrow> Some v
                       | None \<Rightarrow> field (readDB w ! i) ''score'')
                \<and> field event' ''suitability''
                    = (case map_of (rev body) ''suitability'' of
                         Some v \<Rightarrow> Some v
                       | None \<Rightarrow> field (readDB w ! i) ''suitability''))"
  proof (cases "find_index (id_is eid) (readDB w)")
    case None
    then show ?thesis by (simp add: putEvent_store)
  next
    case (Some i)
    have st: "readDB (exec E (PutEvent eid body) w)
              = (readDB w)[i := own (assign (readDB w ! i) body)]"
      using Some by (simp add: putEvent_store)
    have sc: "field (own (assign (readDB w ! i) body)) ''score''
                    = (case map_of (rev body) ''score'' of
                         Some v \<Rightarrow> Some v
                       | None \<Rightarrow> field (readDB w ! i) ''score'')"
      by (rule field_assign) simp
    have su: "field (own (assign (readDB w ! i) body)) ''suitability''
                    = (case map_of (rev body) ''suitability'' of
                         Some v \<Rightarrow> Some v
                       | None \<Rightarrow> field (readDB w ! i) ''suitability'')"
      by (rule field_assign) simp
    from st sc su have "\<exists>event'.
                readDB (exec E (PutEvent eid body) w) = (readDB w)[i := event']
                \<and> field event' ''score''
                    = (case map_of (rev body) ''score'' of
                         Some v \<Rightarrow> Some v
                       | None \<Rightarrow> field (readDB w ! i) ''score'')
                \<and> field event' ''suitability''
                    = (case map_of (rev body) ''suitability'' of
                         Some v \<Rightarrow> Some v
                       | None \<Rightarrow> field (readDB w ! i) ''suitability'')"
      by (intro exI conjI)
    then show ?thesis by (simp only: Some option.case)
  qed
  then show ?thesis by (simp only: PutEvent request.case)
next
  case (GetRawWeather city date)
  show ?thesis by (simp only: GetRawWeather request.case exec_db_other)
next
  case (WeatherCheck eid)
  have "readDB (exec E (WeatherCheck eid) w) = readDB w
        \<or> (\<exists>i r event'.
              find_index (id_is eid) (readDB w) = Some i
              \<and> fst (safeGetWeather E (field (readDB w ! i) ''city'')
                       (field (readDB w ! i) ''date'') w) = Some (Doc r)
              \<and> readDB (exec E (WeatherCheck eid) w) = (readDB w)[i := event']
              \<and> derived_from (Some (simplifyWeather r)) event')"
  proof (cases rule: weatherCheck_effect [of E eid w])
    case untouched
    then have "readDB (exec E (WeatherCheck eid) w) = readDB w"
      by (intro readDB_db_file) simp
    then show ?thesis by (rule disjI1)
  next
    case (refreshed i r event')
    have "readDB (exec E (WeatherCheck eid) w) = (readDB w)[i := event']"
      using refreshed(4) by simp
    with refreshed(1,3,5) show ?thesis
      by (intro disjI2 exI conjI)
  qed
  then show ?thesis by (simp only: WeatherCheck request.case)
next
  case (GetEventSuitability eid)
  show ?thesis by (simp only: GetEventSuitability request.case exec_db_other)
next
  case (Alternatives eid)
  show ?thesis by (simp only: Alternatives request.case exec_db_other)
qed

lemma sample_put:
  "readDB (snd (putEvent (Some 1) body sample_world)) = [own (assign sample_event body)]"
  using sample_find by (simp add: putEvent_store sample_readDB)

theorem score_and_suitability_written_together_witness:
  "find_index (id_is (Some 1)) (readDB sample_world) = Some 0
   \<and> map score_pair
        (readDB (exec sample_env (PutEvent (Some 1) [(''suitability'', JStr ''Great'')])
                   sample_world))
      = [(Some (JNum 65), Some (JStr ''Great''))]"
proof -
  from score_and_suitability_written_together
    [where req = "PutEvent (Some 1) [(''suitability'', JStr ''Great'')]" and E = sample_env
      and w = sample_world]
  obtain event' where st: "readDB (exec sample_env
        (PutEvent (Some 1) [(''suitability'', JStr ''Great'')]) sample_world)
        = (readDB sample_world)[0 := event']"
    and sc: "field event' ''score'' = field (readDB sample_world ! 0) ''score''"
    and su: "field event' ''suitability'' = Some (JStr ''Great'')"
    by (auto simp: sample_find simp del: exec.simps)
  have old: "field sample_event ''score'' = Some (JNum 65)"
    by (simp add: sample_event_def field_def)
  from st sc su old have "map score_pair
        (readDB (exec sample_env (PutEvent (Some 1) [(''suitability'', JStr ''Great'')])
                   sample_world))
      = [(Some (JNum 65), Some (JStr ''Great''))]"
    by (simp add: sample_readDB score_pair_def del: exec.simps)
  with sample_find show ?thesis by (rule conjI)
qed

text \<open>
  Claim C6 as stated fails: an update whose body carries only a score overwrites the
  score of the stored record and leaves its suitability and its weather alone. The record
  then holds score 99 with the label "Good", a pair the scorer never produces.
\<close>

theorem putEvent_changes_score_alone:
  "score_pair (readDB sample_world ! 0) = (Some (JNum 65), Some (JStr ''Good''))
   \<and> score_pair
       (readDB (exec sample_env (PutEvent (Some 1) [(''score'', JNum 99)]) sample_world) ! 0)
      = (Some (JNum 99), Some (JStr ''Good''))
   \<and> field (readDB (exec sample_env (PutEvent (Some 1) [(''score'', JNum 99)]) sample_world) ! 0)
        ''weather''
      = field (readDB sample_world ! 0) ''weather''
   \<and> spec_label 99 = ''Great''"
proof -
  have old: "score_pair sample_event = (Some (JNum 65), Some (JStr ''Good''))"
    by (simp add: score_pair_def sample_event_def field_def)
  have new: "score_pair (own (assign sample_event [(''score'', JNum 99)]))
             = (Some (JNum 99), Some (JStr ''Good''))"
    by (simp add: score_pair_def field_assign) (simp add: sample_event_def field_def)
  have weather: "field (own (assign sample_event [(''score'', JNum 99)])) ''weather''
                 = field sample_event ''weather''"
    by (simp add: field_assign)
  have label: "spec_label 99 = ''Great''"
    by (simp add: spec_label_def)
  from old new weather label show ?thesis
    by (simp add: sample_put sample_readDB)
qed

lemma map_id_of: "map id_of es = map (\<lambda>e. field e ''id'') es"
  by (simp add: id_of_def)

lemma exec_ids:
  assumes "keeps_id req"
  obtains (same) "map id_of (readDB (exec E req w)) = map id_of (readDB w)"
  | (appended) ev where "readDB (exec E req w) = readDB w @ [ev]"
      "id_of ev = Some (JNum (of_nat (length (readDB w) + 1)))"
proof (cases req)
  case (PostEvent body)
  obtain newEvent where a:
    "snd (postEvent E body w)
     = writeDB (readDB w @ [newEvent])
         (snd (safeGetWeather E (field body ''city'') (field body ''date'') w))"
    and c: "id_of newEvent = Some (JNum (of_nat (length (readDB w) + 1)))"
    by (rule postEvent_effect)
  have "readDB (exec E req w) = readDB w @ [newEvent]"
    using a PostEvent by simp
  then show thesis using c by (rule appended)
next
  case GetEvents
  then show thesis using same by (simp only: exec_db_other)
next
  case (PutEvent eid body)
  with assms have "\<not> mentions body ''id''" by simp
  from putEvent_keeps [OF this, of eid w]
  have "map id_of (readDB (exec E req w)) = map id_of (readDB w)"
    using PutEvent by (simp add: map_id_of)
  then show thesis by (rule same)
next
  case (GetRawWeather city date)
  then show thesis using same by (simp only: exec_db_other)
next
  case (WeatherCheck eid)
  have "map id_of (readDB (exec E req w)) = map id_of (readDB w)"
  proof (cases rule: weatherCheck_effect [of E eid w])
    case untouched
    then have "readDB (exec E (WeatherCheck eid) w) = readDB w"
      by (intro readDB_db_file) simp
    with WeatherCheck show ?thesis by simp
  next
    case (refreshed i r event')
    have "readDB (exec E (WeatherCheck eid) w) = (readDB w)[i := event']"
      using refreshed(4) by simp
    with refreshed(2,6) WeatherCheck show ?thesis
      by (simp add: map_update_same)
  qed
  then show thesis by (rule same)
next
  case (GetEventSuitability eid)
  then show thesis using same by (simp only: exec_db_other)
next
  case (Alternatives eid)
  then show thesis using same by (simp only: exec_db_other)
qed

lemma ids_sequential_cong:
  assumes "map id_of es' = map id_of es"
  shows "ids_sequential es' = ids_sequential es"
proof -
  have "length es' = length es"
    using assms by (rule map_eq_imp_length_eq)
  with assms show ?thesis by (simp add: ids_sequential_def)
qed

lemma ids_sequential_snoc:
  assumes "ids_sequential es" and "id_of ev = Some (JNum (of_nat (length es + 1)))"
  shows "ids_sequential (es @ [ev])"
  using assms by (simp add: ids_sequential_def)

lemma ids_sequential_distinct:
  assumes "ids_sequential es"
  shows "distinct (map id_of es)"
proof -
  have "inj_on (\<lambda>n. Some (JNum (of_nat n))) (set [1 ..< Suc (length es)])"
    by (rule inj_onI) simp
  then have "distinct (map (\<lambda>n. Some (JNum (of_nat n))) [1 ..< Suc (length es)])"
    by (simp add: distinct_map)
  with assms show ?thesis by (simp add: ids_sequential_def)
qed

lemma run_ids:
  assumes "ids_sequential (readDB w)" and "list_all keeps_id reqs"
  shows "ids_sequential (readDB (run E reqs w))
         \<and> (\<exists>ext. map id_of (readDB (run E reqs w)) = map id_of (readDB w) @ ext)"
  using assms
proof (induction reqs arbitrary: w)
  case Nil
  then show ?case by (simp add: run_def)
next
  case (Cons req reqs)
  from Cons.prems(2) have k: "keeps_id req" and ks: "list_all keeps_id reqs"
    by simp_all
  have run: "run E (req # reqs) w = run E reqs (exec E req w)"
    by (simp add: run_def)
  from k have step: "ids_sequential (readDB (exec E req w))
              \<and> (\<exists>ext. map id_of (readDB (exec E req w)) = map id_of (readDB w) @ ext)"
  proof (cases rule: exec_ids [where E = E and w = w])
    case same
    then show ?thesis
      using Cons.prems(1) ids_sequential_cong [OF same] by simp
  next
    case (appended ev)
    then show ?thesis
      using ids_sequential_snoc [OF Cons.prems(1) appended(2)] by simp
  qed
  then obtain ext1 where e1:
    "map id_of (readDB (exec E req w)) = map id_of (readDB w) @ ext1"
    by blast
  from Cons.IH [OF conjunct1 [OF step] ks]
  obtain ext2 where seq: "ids_sequential (readDB (run E reqs (exec E req w)))"
    and e2: "map id_of (readDB (run E reqs (exec E req w)))
             = map id_of (readDB (exec E req w)) @ ext2"
    by blast
  from e1 e2 have "map id_of (readDB (run E reqs (exec E req w)))
                   = map id_of (readDB w) @ (ext1 @ ext2)"
    by simp
  with seq show ?case unfolding run by blast
qed

lemma run_ids_kept:
  assumes "list_all keeps_id reqs"
  shows "\<exists>ext. map id_of (readDB (run E reqs w)) = map id_of (readDB w) @ ext"
  using assms
proof (induction reqs arbitrary: w)
  case Nil
  then show ?case by (simp add: run_def)
next
  case (Cons req reqs)
  from Cons.prems have k: "keeps_id req" and ks: "list_all keeps_id reqs"
    by simp_all
  have run: "run E (req # reqs) w = run E reqs (exec E req w)"
    by (simp add: run_def)
  from k have "\<exists>ext. map id_of (readDB (exec E req w)) = map id_of (readDB w) @ ext"
  proof (cases rule: exec_ids [where E = E and w = w])
    case same
    then show ?thesis by simp
  next
    case (appended ev)
    then show ?thesis by simp
  qed
  then obtain ext1 where e1:
    "map id_of (readDB (exec E req w)) = map id_of (readDB w) @ ext1"
    by blast
  from Cons.IH [OF ks, of "exec E req w"]
  obtain ext2 where e2: "map id_of (readDB (run E reqs (exec E req w)))
             = map id_of (readDB (exec E req w)) @ ext2"
    by blast
  from e1 e2 have "map id_of (readDB (run E reqs (exec E req w)))
                   = map id_of (readDB w) @ (ext1 @ ext2)"
    by simp
  then show ?case unfolding run by blast
qed

text \<open>
  Claim C7, as the code has it. \<open>POST /events\<close> appends a record whose id is the current
  number of records plus one. \<open>PUT /events/:id\<close> changes the addressed record only, whose id
  becomes the value the request body carries for \<open>id\<close> and stays as it was when the body
  carries none. Across any sequence of requests in which no update body carries an \<open>id\<close>
  property, every record that existed before keeps its id; and if the ids were
  1, 2, ..., n in storage order before (as in the empty store), they are 1, 2, ..., m
  afterwards, hence pairwise distinct.
\<close>

theorem ids_sequential_and_stable:
  "(\<exists>newEvent.
      readDB (exec E (PostEvent body) w) = readDB w @ [newEvent]
      \<and> id_of newEvent = Some (JNum (of_nat (length (readDB w) + 1))))
   \<and> (case find_index (id_is eid) (readDB w) of
        None \<Rightarrow> readDB (exec E (PutEvent eid body) w) = readDB w
      | Some i \<Rightarrow>
          (\<exists>event'.
             readDB (exec E (PutEvent eid body) w) = (readDB w)[i := event']
             \<and> id_of event'
                 = (case map_of (rev body) ''id'' of
                      Some v \<Rightarrow> Some v
                    | None \<Rightarrow> id_of (readDB w ! i))))
   \<and> (list_all keeps_id reqs \<longrightarrow>
         length (readDB w) \<le> length (readDB (run E reqs w))
         \<and> take (length (readDB w)) (map id_of (readDB (run E reqs w)))
             = map id_of (readDB w))
   \<and> (ids_sequential (readDB w) \<and> list_all keeps_id reqs \<longrightarrow>
         ids_sequential (readDB (run E reqs w))
         \<and> distinct (map id_of (readDB (run E reqs w))))
   \<and> ids_sequential []"
proof -
  obtain newEvent where a:
    "snd (postEvent E body w)
     = writeDB (readDB w @ [newEvent])
         (snd (safeGetWeather E (field body ''city'') (field body ''date'') w))"
    and c: "id_of newEvent = Some (JNum (of_nat (length (readDB w) + 1)))"
    by (rule postEvent_effect)
  have "readDB (exec E (PostEvent body) w) = readDB w @ [newEvent]"
    using a by simp
  with c have new: "\<exists>newEvent.
               readDB (exec E (PostEvent body) w) = readDB w @ [newEvent]
               \<and> id_of newEvent = Some (JNum (of_nat (length (readDB w) + 1)))"
    by (intro exI conjI)
  have put: "case find_index (id_is eid) (readDB w) of
        None \<Rightarrow> readDB (exec E (PutEvent eid body) w) = readDB w
      | Some i \<Rightarrow>
          (\<exists>event'.
             readDB (exec E (PutEvent eid body) w) = (readDB w)[i := event']
             \<and> id_of event'
                 = (case map_of (rev body) ''id'' of
                      Some v \<Rightarrow> Some v
                    | None \<Rightarrow> id_of (readDB w ! i)))"
  proof (cases "find_index (id_is eid) (readDB w)")
    case None
    then show ?thesis by (simp add: putEvent_store)
  next
    case (Some i)
    have st: "readDB (exec E (PutEvent eid body) w)
              = (readDB w)[i := own (assign (readDB w ! i) body)]"
      using Some by (simp add: putEvent_store)
    have "field (own (assign (readDB w ! i) body)) ''id''
                 = (case map_of (rev body) ''id'' of
                      Some v \<Rightarrow> Some v
                    | None \<Rightarrow> field (readDB w ! i) ''id'')"
      by (rule field_assign) simp
    then have idv: "id_of (own (assign (readDB w ! i) body))
                 = (case map_of (rev body) ''id'' of
                      Some v \<Rightarrow> Some v
                    | None \<Rightarrow> id_of (readDB w ! i))"
      by (simp add: id_of_def split: option.splits)
    from st idv have "\<exists>event'.
             readDB (exec E (PutEvent eid body) w) = (readDB w)[i := event']
             \<and> id_of event'
                 = (case map_of (rev body) ''id'' of
                      Some v \<Rightarrow> Some v
                    | None \<Rightarrow> id_of (readDB w ! i))"
      by (intro exI conjI)
    then show ?thesis by (simp only: Some option.case)
  qed
  have kept: "length (readDB w) \<le> length (readDB (run E reqs w))
         \<and> take (length (readDB w)) (map id_of (readDB (run E reqs w)))
             = map id_of (readDB w)"
    if ks: "list_all keeps_id reqs"
  proof -
    from run_ids_kept [OF ks, of E w]
    obtain ext where ext: "map id_of (readDB (run E reqs w)) = map id_of (readDB w) @ ext"
      by blast
    have "length (map id_of (readDB (run E reqs w))) = length (map id_of (readDB w) @ ext)"
      using ext by simp
    then have len: "length (readDB w) \<le> length (readDB (run E reqs w))"
      by simp
    have pre: "take (length (readDB w)) (map id_of (readDB (run E reqs w)))
               = map id_of (readDB w)"
      using ext by simp
    from len pre show ?thesis by (rule conjI)
  qed
  have seq: "ids_sequential (readDB (run E reqs w))
         \<and> distinct (map id_of (readDB (run E reqs w)))"
    if "ids_sequential (readDB w)" and "list_all keeps_id reqs"
  proof -
    have s: "ids_sequential (readDB (run E reqs w))"
      using run_ids [OF that, of E] by (rule conjunct1)
    from s ids_sequential_distinct [OF s] show ?thesis by (rule conjI)
  qed
  have empty: "ids_sequential []"
    by (simp add: ids_sequential_def)
  from kept have kept': "list_all keeps_id reqs \<longrightarrow>
         length (readDB w) \<le> length (readDB (run E reqs w))
         \<and> take (length (readDB w)) (map id_of (readDB (run E reqs w)))
             = map id_of (readDB w)"
    by (rule impI)
  from seq have seq': "ids_sequential (readDB w) \<and> list_all keeps_id reqs \<longrightarrow>
         ids_sequential (readDB (run E reqs w))
         \<and> distinct (map id_of (readDB (run E reqs w)))"
    by blast
  from new put kept' seq' empty show ?thesis
    by (intro conjI)
qed

theorem ids_sequential_and_stable_witness:
  "ids_sequential (readDB fresh_world)
   \<and> list_all keeps_id
       [PostEvent sample_body, PutEvent (Some 1) [(''city'', JStr ''Goa'')],
        PostEvent sample_body, WeatherCheck (Some 2)]
   \<and> ids_sequential
       (readDB (run sample_env
          [PostEvent sample_body, PutEvent (Some 1) [(''city'', JStr ''Goa'')],
           PostEvent sample_body, WeatherCheck (Some 2)] fresh_world))
   \<and> distinct (map id_of
       (readDB (run sample_env
          [PostEvent sample_body, PutEvent (Some 1) [(''city'', JStr ''Goa'')],
           PostEvent sample_body, WeatherCheck (Some 2)] fresh_world)))"
proof -
  have h1: "ids_sequential (readDB fresh_world)"
    by (simp add: fresh_world_def readDB_def ids_sequential_def)
  have h2: "list_all keeps_id
       [PostEvent sample_body, PutEvent (Some 1) [(''city'', JStr ''Goa'')],
        PostEvent sample_body, WeatherCheck (Some 2)]"
    by (simp add: mentions_def)
  from ids_sequential_and_stable
    [where w = fresh_world and E = sample_env
      and reqs = "[PostEvent sample_body, PutEvent (Some 1) [(''city'', JStr ''Goa'')],
        PostEvent sample_body, WeatherCheck (Some 2)]"] h1 h2
  have "ids_sequential
       (readDB (run sample_env
          [PostEvent sample_body, PutEvent (Some 1) [(''city'', JStr ''Goa'')],
           PostEvent sample_body, WeatherCheck (Some 2)] fresh_world))
   \<and> distinct (map id_of
       (readDB (run sample_env
          [PostEvent sample_body, PutEvent (Some 1) [(''city'', JStr ''Goa'')],
           PostEvent sample_body, WeatherCheck (Some 2)] fresh_world)))"
    by blast
  with h1 h2 show ?thesis by (intro conjI) simp_all
qed

text \<open>
  Claim C7 as stated fails: an update whose body carries an \<open>id\<close> overwrites the id of the
  stored record, after which the ids of the store are no longer 1, ..., n.
\<close>

theorem putEvent_changes_id:
  "id_of (readDB sample_world ! 0) = Some (JNum 1)
   \<and> id_of (readDB (exec sample_env (PutEvent (Some 1) [(''id'', JNum 7)]) sample_world) ! 0)
       = Some (JNum 7)
   \<and> ids_sequential (readDB sample_world)
   \<and> \<not> ids_sequential
         (readDB (exec sample_env (PutEvent (Some 1) [(''id'', JNum 7)]) sample_world))"
proof -
  have old: "id_of sample_event = Some (JNum 1)"
    by (simp add: id_of_def sample_event_def field_def)
  have new: "id_of (own (assign sample_event [(''id'', JNum 7)])) = Some (JNum 7)"
    by (simp add: id_of_def field_assign)
  have seq: "ids_sequential [sample_event]"
    by (simp add: ids_sequential_def old)
  have nseq: "\<not> ids_sequential [own (assign sample_event [(''id'', JNum 7)])]"
    by (simp add: ids_sequential_def new)
  from old new seq nseq show ?thesis
    by (simp add: sample_put sample_readDB)
qed







lemma suggestion_of_None: "suggestion_of type dr = None \<longleftrightarrow> \<not> fetched dr"
  by (simp add: suggestion_of_def fetched_def split: option.splits)





























end
